theory Spec2Isabelle
  imports Main "HOL-Library.Word" "HOL-Library.Sublist" "HOL-Library.AList"
begin

section \<open>JavaScript strings\<close>

text \<open>
  A JavaScript string is a sequence of UTF-16 code units. String literals of the source
  are ASCII; \<open>js\<close> turns an Isabelle literal into its code units.
\<close>

type_synonym jschar = "16 word"
type_synonym jsstring = "jschar list"

definition js :: "string \<Rightarrow> jsstring" where
  "js s = map (\<lambda>c. of_nat (of_char c)) s"

abbreviation percent :: jschar where "percent \<equiv> 0x25"
abbreviation slash :: jschar where "slash \<equiv> 0x2F"
abbreviation colon :: jschar where "colon \<equiv> 0x3A"
abbreviation dquote :: jschar where "dquote \<equiv> 0x22"

subsection \<open>decodeURIComponent\<close>

text \<open>
  The built-in \<open>decodeURIComponent\<close> (ECMA-262, abstract operation Decode with an empty
  set of preserved escapes). Every failure is the exception URIError, modelled as \<open>None\<close>.
\<close>

definition hexDigit :: "jschar \<Rightarrow> nat option" where
  "hexDigit c =
     (let n = unat c in
      if 48 \<le> n \<and> n \<le> 57 then Some (n - 48)
      else if 65 \<le> n \<and> n \<le> 70 then Some (n - 55)
      else if 97 \<le> n \<and> n \<le> 102 then Some (n - 87)
      else None)"

text \<open>\<open>hexOctet s\<close> reads an escape \<open>%XY\<close> at the head of \<open>s\<close>.\<close>

fun hexOctet :: "jsstring \<Rightarrow> nat option" where
  "hexOctet (p # a # b # rest) =
     (if p = percent then
        (case hexDigit a of None \<Rightarrow> None
         | Some h \<Rightarrow> (case hexDigit b of None \<Rightarrow> None | Some l \<Rightarrow> Some (16 * h + l)))
      else None)"
| "hexOctet _ = None"

text \<open>\<open>octets j s\<close> reads \<open>j\<close> consecutive escapes, the continuation bytes of a sequence.\<close>

fun octets :: "nat \<Rightarrow> jsstring \<Rightarrow> nat list option" where
  "octets 0 s = Some []"
| "octets (Suc j) s =
     (case hexOctet s of None \<Rightarrow> None
      | Some b \<Rightarrow> (case octets j (drop 3 s) of None \<Rightarrow> None | Some bs \<Rightarrow> Some (b # bs)))"

text \<open>The number of leading 1 bits of an octet (5 stands for five or more).\<close>

definition leadingOnes :: "nat \<Rightarrow> nat" where
  "leadingOnes b =
     (if b < 0x80 then 0 else if b < 0xC0 then 1 else if b < 0xE0 then 2
      else if b < 0xF0 then 3 else if b < 0xF8 then 4 else 5)"

text \<open>
  The code point of a well-formed UTF-8 sequence with lead byte \<open>b\<close> and continuation
  bytes \<open>bs\<close>: continuation bytes are \<open>10xxxxxx\<close>, no overlong form, no surrogate,
  nothing above U+10FFFF.
\<close>

definition utf8CodePoint :: "nat \<Rightarrow> nat list \<Rightarrow> nat option" where
  "utf8CodePoint b bs =
     (if list_all (\<lambda>c. 0x80 \<le> c \<and> c < 0xC0) bs then
        (let n = Suc (length bs);
             v = fold (\<lambda>c acc. acc * 64 + (c - 0x80)) bs (b mod 2 ^ (7 - n))
         in if (n = 2 \<and> 0x80 \<le> v)
             \<or> (n = 3 \<and> 0x800 \<le> v \<and> \<not> (0xD800 \<le> v \<and> v \<le> 0xDFFF))
             \<or> (n = 4 \<and> 0x10000 \<le> v \<and> v \<le> 0x10FFFF)
            then Some v else None)
      else None)"

definition utf16Encode :: "nat \<Rightarrow> jsstring" where
  "utf16Encode v =
     (if v < 0x10000 then [of_nat v]
      else [of_nat (0xD800 + (v - 0x10000) div 0x400),
            of_nat (0xDC00 + (v - 0x10000) mod 0x400)])"

fun decodeURIComponent :: "jsstring \<Rightarrow> jsstring option" where
  "decodeURIComponent [] = Some []"
| "decodeURIComponent (c # cs) =
     (if c \<noteq> percent then map_option ((#) c) (decodeURIComponent cs)
      else
        (case hexOctet (c # cs) of
           None \<Rightarrow> None
         | Some b \<Rightarrow>
             (let n = leadingOnes b in
              if n = 0 then map_option ((#) (of_nat b)) (decodeURIComponent (drop 2 cs))
              else if n = 1 \<or> n > 4 then None
              else
                (case octets (n - 1) (drop 2 cs) of
                   None \<Rightarrow> None
                 | Some bs \<Rightarrow>
                     (case utf8CodePoint b bs of
                        None \<Rightarrow> None
                      | Some v \<Rightarrow>
                          map_option ((@) (utf16Encode v))
                            (decodeURIComponent (drop (3 * (n - 1)) (drop 2 cs))))))))"

subsection \<open>Regular expressions of the classifier\<close>

text \<open>
  The three patterns of \<open>parseErrorForPackageAlias\<close> have one shape: a literal, a group
  \<open>([^c]+)\<close>, and a literal that begins with the excluded character \<open>c\<close>. At a given
  start the greedy group can only take the maximal run of characters other than \<open>c\<close>:
  after any shorter run the next character is not \<open>c\<close>, so the closing literal fails.
  \<open>exec\<close> tries the start positions from left to right and yields the group of the
  first match, as \<open>RegExp.prototype.exec\<close> without flags does.
\<close>

record pattern =
  before :: jsstring
  excluded :: jschar
  after :: jsstring

definition matchAt :: "pattern \<Rightarrow> jsstring \<Rightarrow> jsstring option" where
  "matchAt p s =
     (if prefix (before p) s then
        (let rest = drop (length (before p)) s;
             grp = takeWhile (\<lambda>c. c \<noteq> excluded p) rest
         in if grp \<noteq> [] \<and> prefix (after p) (dropWhile (\<lambda>c. c \<noteq> excluded p) rest)
            then Some grp else None)
      else None)"

fun exec :: "pattern \<Rightarrow> jsstring \<Rightarrow> jsstring option" where
  "exec p [] = matchAt p []"
| "exec p (c # cs) = (case matchAt p (c # cs) of Some g \<Rightarrow> Some g | None \<Rightarrow> exec p cs)"

definition registryNotFound :: pattern where
  "registryNotFound =
     \<lparr>before = js ''https://registry.yarnpkg.com/'', excluded = colon,
      after = js '': Not found''\<rparr>"

definition couldntFindPackage :: pattern where
  "couldntFindPackage =
     \<lparr>before = js ''error Couldn't find package \"'', excluded = dquote,
      after = js ''\"''\<rparr>"

definition couldntFindVersions :: pattern where
  "couldntFindVersions =
     \<lparr>before = js ''error Couldn't find any versions for \"'', excluded = dquote,
      after = js ''\" that matches''\<rparr>"

definition patterns :: "pattern list" where
  "patterns = [registryNotFound, couldntFindPackage, couldntFindVersions]"

subsection \<open>parseErrorForPackageAlias\<close>

datatype error = URIError | ENOENT | SystemError string

text \<open>
  \<open>aliasMatch\<close> is \<open>decodedString.match(/^([^\/]+)/)\<close>: the maximal run of characters
  other than \<open>/\<close> at the start of the string, or no match when that run is empty.
\<close>

definition aliasMatch :: "jsstring \<Rightarrow> jsstring option" where
  "aliasMatch d = (case takeWhile (\<lambda>c. c \<noteq> slash) d of [] \<Rightarrow> None | a # as \<Rightarrow> Some (a # as))"

text \<open>
  The loop over the patterns. The argument is \<open>error.toString()\<close>. A pattern whose group
  decodes to a string without alias falls through to the next pattern; a URIError of
  \<open>decodeURIComponent\<close> leaves the function.
\<close>

fun tryPatterns :: "pattern list \<Rightarrow> jsstring \<Rightarrow> error + jsstring option" where
  "tryPatterns [] s = Inr None"
| "tryPatterns (p # ps) s =
     (case exec p s of
        None \<Rightarrow> tryPatterns ps s
      | Some m \<Rightarrow>
          (case decodeURIComponent m of
             None \<Rightarrow> Inl URIError
           | Some decodedString \<Rightarrow>
               (case aliasMatch decodedString of
                  Some alias \<Rightarrow> Inr (Some alias)
                | None \<Rightarrow> tryPatterns ps s)))"

definition parseErrorForPackageAlias :: "jsstring \<Rightarrow> error + jsstring option" where
  "parseErrorForPackageAlias e = tryPatterns patterns e"


section \<open>The manifest, the removal records and the environment\<close>

text \<open>
  \<open>Record<string, string>\<close> is an object with string values: an association list in
  property order. An own property is stored with \<open>AList.update\<close> (in place for a key that
  is present, at the end otherwise), \<open>delete o[k]\<close> is \<open>AList.delete\<close>. The lists hold the
  own properties; the order of index-like keys is not modelled.
\<close>

type_synonym Dependencies = "(jsstring \<times> jsstring) list"

text \<open>
  The assignment \<open>o[k] = v\<close> of a string to an object whose prototype is
  \<open>Object.prototype\<close>, as the module's records are. For the key \<open>__proto__\<close>, unless it
  is an own property, the assignment calls the inherited setter, which ignores a string:
  nothing is stored. \<open>JSON.parse\<close> and the object spread define own properties, also for
  that key.
\<close>

definition assign :: "jsstring \<Rightarrow> jsstring \<Rightarrow> Dependencies \<Rightarrow> Dependencies" where
  "assign k v obj =
     (if k = js ''__proto__'' \<and> k \<notin> set (map fst obj) then obj else AList.update k v obj)"

record PackageJson =
  dependencies :: "Dependencies option"
  devDependencies :: "Dependencies option"
  scripts :: "Dependencies option"

text \<open>
  The code uses the locked set only through the test \<open>name in locked\<close>; the set is
  modelled as that test, which holds of the keys of the set and of the names that the
  object inherits.
\<close>

type_synonym LockedDependencies = "jsstring \<Rightarrow> bool"

datatype dependencyType = Local | Locked

text \<open>
  A path is the string the caller supplied followed by the segments joined to it. The
  JSON text of a file is modelled by the value that was serialised.
\<close>

type_synonym path = "jsstring \<times> string list"

definition pathJoin :: "path \<Rightarrow> string \<Rightarrow> path" where
  "pathJoin p name = (fst p, snd p @ [name])"

definition dirname :: "path \<Rightarrow> path" where
  "dirname p = (fst p, butlast (snd p))"

datatype doc =
    PackageDoc PackageJson
  | MapDoc Dependencies
  | SummaryDoc Dependencies Dependencies Dependencies

datatype event =
    Exec string jsstring "(path \<times> doc) list"
  | WriteFile path doc
  | ConsoleLog jsstring
  | ConsoleError jsstring jsstring
  | LogInfo jsstring
  | LogSuccess jsstring
  | LogError jsstring "jsstring option"

text \<open>
  The state of a run: the five module-level records, the object held by the variable
  \<open>packageJson\<close> of \<open>cleanPackageJson\<close>, the directories that exist, the files written,
  and the trace of commands, writes and console output. \<open>Exec\<close> carries the files as the
  command finds them. \<open>faults\<close> belongs to the environment and never changes: \<open>faults st i\<close>
  is the error code, if any, with which the file system refuses a write that is attempted
  when the trace has \<open>i\<close> events (no permission, no space, the path is a directory).
\<close>

record state =
  removedLocalDeps :: Dependencies
  removedLocalDevDeps :: Dependencies
  removedLockedDeps :: Dependencies
  removedLockedDevDeps :: Dependencies
  removedScripts :: Dependencies
  packageJson :: PackageJson
  dirs :: "path list"
  files :: "(path \<times> doc) list"
  trace :: "event list"
  faults :: "nat \<Rightarrow> string option"

datatype 'a result = Ok 'a state | Throw error state

fun stateOf :: "'a result \<Rightarrow> state" where
  "stateOf (Ok x st) = st"
| "stateOf (Throw e st) = st"

definition emit :: "event \<Rightarrow> state \<Rightarrow> state" where
  "emit ev st = st\<lparr>trace := trace st @ [ev]\<rparr>"

definition logInfo :: "jsstring \<Rightarrow> state \<Rightarrow> state" where
  "logInfo message st = emit (LogInfo message) st"

definition logSuccess :: "jsstring \<Rightarrow> state \<Rightarrow> state" where
  "logSuccess message st = emit (LogSuccess message) st"

definition logError :: "jsstring \<Rightarrow> jsstring option \<Rightarrow> state \<Rightarrow> state" where
  "logError message err st = emit (LogError message err) st"

text \<open>
  \<open>fs.writeFileSync\<close> creates the file, never a directory: with the directory missing it
  throws ENOENT. With the directory present the write succeeds unless the file system
  refuses it.
\<close>

definition writeFileSync :: "path \<Rightarrow> doc \<Rightarrow> state \<Rightarrow> unit result" where
  "writeFileSync p d st =
     (if dirname p \<in> set (dirs st)
      then (case faults st (length (trace st)) of
              Some code \<Rightarrow> Throw (SystemError code) st
            | None \<Rightarrow> Ok () (emit (WriteFile p d) (st\<lparr>files := AList.update p d (files st)\<rparr>)))
      else Throw ENOENT st)"

section \<open>The manifest pruner\<close>

definition getRecord :: "dependencyType \<Rightarrow> bool \<Rightarrow> state \<Rightarrow> Dependencies" where
  "getRecord dependencyType isDevDep st =
     (if dependencyType = Local
      then (if isDevDep then removedLocalDevDeps st else removedLocalDeps st)
      else (if isDevDep then removedLockedDevDeps st else removedLockedDeps st))"

text \<open>\<open>getRecord\<close> returns a reference; \<open>setRecord\<close> stores the mutated object back.\<close>

definition setRecord :: "dependencyType \<Rightarrow> bool \<Rightarrow> Dependencies \<Rightarrow> state \<Rightarrow> state" where
  "setRecord dependencyType isDevDep r st =
     (if dependencyType = Local
      then (if isDevDep then st\<lparr>removedLocalDevDeps := r\<rparr> else st\<lparr>removedLocalDeps := r\<rparr>)
      else (if isDevDep then st\<lparr>removedLockedDevDeps := r\<rparr> else st\<lparr>removedLockedDeps := r\<rparr>))"

text \<open>
  The loop of \<open>removeAndRecordDependencies\<close> over the array \<open>Object.entries(dependencies)\<close>,
  taken before the loop; the pair is the record and the dependencies object.
\<close>

fun removeLoop ::
  "(jsstring \<Rightarrow> bool) \<Rightarrow> (jsstring \<times> jsstring) list \<Rightarrow> Dependencies \<times> Dependencies
   \<Rightarrow> Dependencies \<times> Dependencies" where
  "removeLoop condition [] (record, deps) = (record, deps)"
| "removeLoop condition ((name, version) # entries) (record, deps) =
     (if condition name
      then removeLoop condition entries (assign name version record, AList.delete name deps)
      else removeLoop condition entries (record, deps))"

definition removeAndRecordDependencies ::
  "Dependencies option \<Rightarrow> bool \<Rightarrow> dependencyType \<Rightarrow> (jsstring \<Rightarrow> bool) \<Rightarrow> state
   \<Rightarrow> Dependencies option \<times> state" where
  "removeAndRecordDependencies deps isDevDep dependencyType condition st =
     (case deps of
        None \<Rightarrow> (None, st)
      | Some d \<Rightarrow>
          (let (record, d') = removeLoop condition d (getRecord dependencyType isDevDep st, d)
           in (Some d', setRecord dependencyType isDevDep record st)))"

definition removeAliasDeps ::
  "jsstring \<Rightarrow> Dependencies option \<Rightarrow> bool \<Rightarrow> state \<Rightarrow> Dependencies option \<times> state" where
  "removeAliasDeps alias deps isDevDep st =
     removeAndRecordDependencies deps isDevDep Local (\<lambda>name. prefix (alias @ [slash]) name) st"

definition removeLockedDeps ::
  "LockedDependencies \<Rightarrow> Dependencies option \<Rightarrow> bool \<Rightarrow> state \<Rightarrow> Dependencies option \<times> state" where
  "removeLockedDeps lockedDeps deps isDevDep st =
     removeAndRecordDependencies deps isDevDep Locked (\<lambda>name. lockedDeps name) st"

definition removeScripts :: "state \<Rightarrow> state" where
  "removeScripts st =
     (case scripts (packageJson st) of
        None \<Rightarrow> st
      | Some s \<Rightarrow>
          logSuccess (js ''Removed scripts from package.json'')
            (st\<lparr>removedScripts :=
                  fold (\<lambda>scriptName r. assign scriptName (the (map_of s scriptName)) r)
                    (map fst s) (removedScripts st),
                packageJson := (packageJson st)\<lparr>scripts := None\<rparr>\<rparr>))"


section \<open>The retry controller\<close>

text \<open>
  The outcome of the child process is given by the environment: its standard output, or
  the error (as \<open>error.toString()\<close>) with the standard error output.
\<close>

datatype execResult = ExecOk jsstring | ExecFailed jsstring jsstring

definition runCommand ::
  "execResult \<Rightarrow> string \<Rightarrow> jsstring \<Rightarrow> state \<Rightarrow> (jsstring + jsstring) \<times> state" where
  "runCommand outcome command workingDirectory st =
     (let st' = emit (Exec command workingDirectory (files st)) st in
      case outcome of
        ExecFailed err stderr \<Rightarrow>
          (Inl err,
           emit (ConsoleError (js ''Error executing command \"'' @ js command @ js ''\":'') stderr) st')
      | ExecOk stdout \<Rightarrow> (Inr stdout, emit (ConsoleLog stdout) st'))"

text \<open>
  The statements of the catch block after the alias is known: both maps are pruned, the
  manifest is written, the removal is logged.
\<close>

definition pruneStep :: "jsstring \<Rightarrow> jsstring \<Rightarrow> state \<Rightarrow> unit result" where
  "pruneStep packageAlias projectRootPath st =
     (let (deps', st1) = removeAliasDeps packageAlias (dependencies (packageJson st)) False st;
          st2 = st1\<lparr>packageJson := (packageJson st1)\<lparr>dependencies := deps'\<rparr>\<rparr>;
          (devDeps', st3) = removeAliasDeps packageAlias (devDependencies (packageJson st2)) True st2;
          st4 = st3\<lparr>packageJson := (packageJson st3)\<lparr>devDependencies := devDeps'\<rparr>\<rparr>
      in case writeFileSync (pathJoin (projectRootPath, []) ''package.json'')
                (PackageDoc (packageJson st4)) st4 of
           Throw e st5 \<Rightarrow> Throw e st5
         | Ok u st5 \<Rightarrow>
             Ok () (logInfo (js ''Removed packages starting with alias: '' @ packageAlias) st5))"

text \<open>
  The \<open>while\<close> loop of \<open>attemptInstallWithRetries\<close>; \<open>yarn\<close> gives the outcome of the
  install command of each iteration. The result is the final \<open>retryCount\<close>.
\<close>

function retryLoop ::
  "(nat \<Rightarrow> execResult) \<Rightarrow> jsstring \<Rightarrow> nat \<Rightarrow> nat \<Rightarrow> state \<Rightarrow> nat result" where
  "retryLoop yarn projectRootPath maxRetries retryCount st =
     (if retryCount < maxRetries then
        (case runCommand (yarn retryCount) ''yarn install'' projectRootPath
                (logInfo (js ''Attempting to install dependencies...'') st) of
           (Inr out, st1) \<Rightarrow>
             Ok retryCount (logSuccess (js ''Dependencies installed successfully!'') st1)
         | (Inl err, st1) \<Rightarrow>
             (case parseErrorForPackageAlias err of
                Inl e \<Rightarrow> Throw e st1
              | Inr None \<Rightarrow>
                  Ok retryCount
                    (logError (js ''Could not parse package alias from error:'') (Some err) st1)
              | Inr (Some packageAlias) \<Rightarrow>
                  (if packageAlias = [] then
                     Ok retryCount
                       (logError (js ''Could not parse package alias from error:'') (Some err) st1)
                   else
                     (case pruneStep packageAlias projectRootPath st1 of
                        Throw e st2 \<Rightarrow> Throw e st2
                      | Ok u st2 \<Rightarrow>
                          retryLoop yarn projectRootPath maxRetries (retryCount + 1) st2))))
      else Ok retryCount st)"
  by pat_completeness auto
termination
  by (relation "measure (\<lambda>(yarn, projectRootPath, maxRetries, retryCount, st). maxRetries - retryCount)")
     auto

definition attemptInstallWithRetries ::
  "(nat \<Rightarrow> execResult) \<Rightarrow> jsstring \<Rightarrow> nat \<Rightarrow> state \<Rightarrow> unit result" where
  "attemptInstallWithRetries yarn projectRootPath maxRetries st =
     (case retryLoop yarn projectRootPath maxRetries 0 st of
        Throw e st' \<Rightarrow> Throw e st'
      | Ok retryCount st' \<Rightarrow>
          (if retryCount \<ge> maxRetries
           then Ok ()
                  (logError
                     (js ''Failed to resolve all package installation issues after maximum retries.'')
                     None st')
           else Ok () st'))"

section \<open>The audit exporter\<close>

definition saveJson :: "path \<Rightarrow> string \<Rightarrow> doc \<Rightarrow> state \<Rightarrow> unit result" where
  "saveJson dir fileName data st = writeFileSync (pathJoin dir fileName) data st"

text \<open>The object spread \<open>{...a, ...b}\<close>: the properties of \<open>a\<close>, then those of \<open>b\<close> assigned.\<close>

definition spread :: "Dependencies \<Rightarrow> Dependencies \<Rightarrow> Dependencies" where
  "spread a b = fold (\<lambda>(k, v) r. AList.update k v r) b a"

definition saveRemovedItems :: "jsstring \<Rightarrow> state \<Rightarrow> unit result" where
  "saveRemovedItems exportRootPath st =
     (let detailsPath = pathJoin (exportRootPath, []) ''details'' in
      case saveJson detailsPath ''removedLocalPackages.json'' (MapDoc (removedLocalDeps st)) st of
        Throw e st1 \<Rightarrow> Throw e st1
      | Ok u st1 \<Rightarrow>
      (case saveJson detailsPath ''removedLockedPackages.json'' (MapDoc (removedLockedDeps st1)) st1 of
        Throw e st2 \<Rightarrow> Throw e st2
      | Ok u st2 \<Rightarrow>
      (case saveJson detailsPath ''removedScripts.json'' (MapDoc (removedScripts st2)) st2 of
        Throw e st3 \<Rightarrow> Throw e st3
      | Ok u st3 \<Rightarrow>
      (let combinedDevDeps = spread (removedLocalDevDeps st3) (removedLockedDevDeps st3);
           combinedDeps = spread (removedLocalDeps st3) (removedLockedDeps st3)
       in case saveJson (exportRootPath, []) ''allRemovedItems.json''
                 (SummaryDoc (removedScripts st3) combinedDeps combinedDevDeps) st3 of
            Throw e st4 \<Rightarrow> Throw e st4
          | Ok u st4 \<Rightarrow>
              Ok () (logSuccess (js ''Saved removed items to '' @ exportRootPath) st4)))))"

section \<open>cleanPackageJson\<close>

text \<open>\<open>countKeys deps\<close> is \<open>Object.keys(deps || {}).length\<close>.\<close>

definition countKeys :: "Dependencies option \<Rightarrow> nat" where
  "countKeys deps = (case deps of None \<Rightarrow> 0 | Some d \<Rightarrow> length d)"

text \<open>
  The three calls of \<open>cleanPackageJson\<close> that follow the read: the scripts are removed,
  then the locked entries of both maps.
\<close>

definition preFilter :: "LockedDependencies \<Rightarrow> state \<Rightarrow> state" where
  "preFilter lockedDependencies st =
     (let st0 = removeScripts st;
          (deps', st1) = removeLockedDeps lockedDependencies (dependencies (packageJson st0)) False st0;
          st2 = st1\<lparr>packageJson := (packageJson st1)\<lparr>dependencies := deps'\<rparr>\<rparr>;
          (devDeps', st3) =
             removeLockedDeps lockedDependencies (devDependencies (packageJson st2)) True st2
      in st3\<lparr>packageJson := (packageJson st3)\<lparr>devDependencies := devDeps'\<rparr>\<rparr>)"

text \<open>
  \<open>manifest\<close> is the outcome of reading and parsing \<open>package.json\<close> at entry: the parsed
  object, or the exception of the read.
\<close>

definition cleanPackageJson ::
  "jsstring \<Rightarrow> LockedDependencies \<Rightarrow> jsstring \<Rightarrow> (nat \<Rightarrow> execResult) \<Rightarrow> error + PackageJson
   \<Rightarrow> state \<Rightarrow> unit result" where
  "cleanPackageJson projectRootPath lockedDependencies exportRootPath yarn manifest st =
     (case manifest of
        Inl e \<Rightarrow> Throw e st
      | Inr pj \<Rightarrow>
          (let st1 = preFilter lockedDependencies (st\<lparr>packageJson := pj\<rparr>) in
           case writeFileSync (pathJoin (projectRootPath, []) ''package.json'')
                  (PackageDoc (packageJson st1)) st1 of
             Throw e st2 \<Rightarrow> Throw e st2
           | Ok u st2 \<Rightarrow>
               (let maxRetries = countKeys (dependencies (packageJson st2))
                               + countKeys (devDependencies (packageJson st2))
                in case attemptInstallWithRetries yarn projectRootPath maxRetries st2 of
                     Throw e st3 \<Rightarrow> Throw e st3
                   | Ok u st3 \<Rightarrow> saveRemovedItems exportRootPath st3)))"

text \<open>
  The state when the module has been loaded: every record is empty. Here the file system
  refuses no write; \<open>(moduleLoaded ds)\<lparr>faults := fl\<rparr>\<close> is the state in an environment
  with the refusals \<open>fl\<close>.
\<close>

definition moduleLoaded :: "path list \<Rightarrow> state" where
  "moduleLoaded ds =
     \<lparr>removedLocalDeps = [], removedLocalDevDeps = [], removedLockedDeps = [],
      removedLockedDevDeps = [], removedScripts = [],
      packageJson = \<lparr>dependencies = None, devDependencies = None, scripts = None\<rparr>,
      dirs = ds, files = [], trace = [], faults = (\<lambda>i. None)\<rparr>"


section \<open>Notions used to state the properties\<close>

text \<open>
  The classifier in the words of the specification: the matchers are tried in their fixed
  order and the first one that matches gives the matched text.
\<close>

definition spec_firstMatch :: "jsstring \<Rightarrow> jsstring option" where
  "spec_firstMatch s =
     (case exec registryNotFound s of
        Some m \<Rightarrow> Some m
      | None \<Rightarrow>
          (case exec couldntFindPackage s of
             Some m \<Rightarrow> Some m
           | None \<Rightarrow> exec couldntFindVersions s))"

text \<open>The install attempts of a run are the \<open>Exec\<close> events of its trace.\<close>

fun isExec :: "event \<Rightarrow> bool" where
  "isExec (Exec command cwd fs) = True"
| "isExec _ = False"

definition attempts :: "state \<Rightarrow> nat" where
  "attempts st = length (filter isExec (trace st))"

text \<open>
  The effect of pruning both maps of the manifest with one predicate into the buckets of
  one origin: \<open>keepRest\<close> is what stays in a map, \<open>recordAll\<close> what the bucket holds
  afterwards. \<open>pruneStep\<close> and \<open>preFilter\<close> are shown below to act as \<open>pruneBoth\<close>.
\<close>

definition keepRest :: "(jsstring \<Rightarrow> bool) \<Rightarrow> Dependencies option \<Rightarrow> Dependencies option" where
  "keepRest c deps = map_option (filter (\<lambda>(n, v). \<not> c n)) deps"

definition recordAll :: "(jsstring \<Rightarrow> bool) \<Rightarrow> Dependencies option \<Rightarrow> Dependencies \<Rightarrow> Dependencies" where
  "recordAll c deps r =
     (case deps of None \<Rightarrow> r
      | Some d \<Rightarrow> fold (\<lambda>(n, v). assign n v) (filter (\<lambda>(n, v). c n) d) r)"

definition pruneBoth :: "dependencyType \<Rightarrow> (jsstring \<Rightarrow> bool) \<Rightarrow> state \<Rightarrow> state" where
  "pruneBoth ty c st =
     (setRecord ty True (recordAll c (devDependencies (packageJson st)) (getRecord ty True st))
        (setRecord ty False (recordAll c (dependencies (packageJson st)) (getRecord ty False st)) st))
      \<lparr>packageJson := (packageJson st)
          \<lparr>dependencies := keepRest c (dependencies (packageJson st)),
           devDependencies := keepRest c (devDependencies (packageJson st))\<rparr>\<rparr>"

definition entries :: "Dependencies option \<Rightarrow> (jsstring \<times> jsstring) set" where
  "entries deps = (case deps of None \<Rightarrow> {} | Some d \<Rightarrow> set d)"

definition names :: "Dependencies option \<Rightarrow> jsstring set" where
  "names deps = fst ` entries deps"

text \<open>
  The conservation law, name by name: an entry of the original map is, with its version,
  in exactly one of the final map, the local bucket and the locked bucket, and a name
  that the original map does not have is in none of them. \<open>conserved\<close> is the invariant
  of the run: the law for both kinds and every name other than \<open>__proto__\<close>, for maps
  whose keys are distinct, as the keys of an object are. \<open>bucketsDistinct\<close> says the same
  of the keys of the four buckets.
\<close>

definition lookupDep :: "Dependencies option \<Rightarrow> jsstring \<Rightarrow> jsstring option" where
  "lookupDep deps n = (case deps of None \<Rightarrow> None | Some d \<Rightarrow> map_of d n)"

definition exactlyOne ::
  "jsstring option \<Rightarrow> jsstring option \<Rightarrow> jsstring option \<Rightarrow> jsstring option \<Rightarrow> bool" where
  "exactlyOne original kept removedLocal removedLocked =
     (case original of
        None \<Rightarrow> kept = None \<and> removedLocal = None \<and> removedLocked = None
      | Some v \<Rightarrow>
          (kept = Some v \<and> removedLocal = None \<and> removedLocked = None)
        \<or> (kept = None \<and> removedLocal = Some v \<and> removedLocked = None)
        \<or> (kept = None \<and> removedLocal = None \<and> removedLocked = Some v))"

definition distinctKeys :: "Dependencies option \<Rightarrow> bool" where
  "distinctKeys deps = (case deps of None \<Rightarrow> True | Some d \<Rightarrow> distinct (map fst d))"

definition conserved :: "PackageJson \<Rightarrow> state \<Rightarrow> bool" where
  "conserved pj st =
     (distinctKeys (dependencies (packageJson st))
      \<and> distinctKeys (devDependencies (packageJson st))
      \<and> (\<forall>n. n \<noteq> js ''__proto__'' \<longrightarrow>
             exactlyOne (lookupDep (dependencies pj) n)
                (lookupDep (dependencies (packageJson st)) n)
                (map_of (removedLocalDeps st) n) (map_of (removedLockedDeps st) n))
      \<and> (\<forall>n. n \<noteq> js ''__proto__'' \<longrightarrow>
             exactlyOne (lookupDep (devDependencies pj) n)
                (lookupDep (devDependencies (packageJson st)) n)
                (map_of (removedLocalDevDeps st) n) (map_of (removedLockedDevDeps st) n)))"

definition bucketsDistinct :: "state \<Rightarrow> bool" where
  "bucketsDistinct st =
     (distinct (map fst (removedLocalDeps st)) \<and> distinct (map fst (removedLocalDevDeps st))
      \<and> distinct (map fst (removedLockedDeps st)) \<and> distinct (map fst (removedLockedDevDeps st)))"

text \<open>
  An install command sees no scripts when the manifest it finds on disk has none.
  \<open>scriptsGone\<close> and \<open>manifestOnDisk\<close> are the invariants of the run after the scripts
  have been removed and the manifest has been written.
\<close>

fun execSeesNoScripts :: "jsstring \<Rightarrow> event \<Rightarrow> bool" where
  "execSeesNoScripts root (Exec command cwd fs) =
     (case map_of fs (root, [''package.json'']) of
        Some (PackageDoc m) \<Rightarrow> scripts m = None
      | _ \<Rightarrow> False)"
| "execSeesNoScripts root _ = True"

definition scriptsGone :: "jsstring \<Rightarrow> Dependencies \<Rightarrow> state \<Rightarrow> bool" where
  "scriptsGone root rs st =
     (scripts (packageJson st) = None \<and> removedScripts st = rs
      \<and> list_all (execSeesNoScripts root) (trace st))"

definition manifestOnDisk :: "jsstring \<Rightarrow> state \<Rightarrow> bool" where
  "manifestOnDisk root st =
     (map_of (files st) (root, [''package.json'']) = Some (PackageDoc (packageJson st)))"

text \<open>
  The outcome of a run: the exception it ends with, if any. The summary document is
  written once per run of the exporter. \<open>exported\<close> says what the four documents on disk
  hold: the three documents under \<open>details\<close> are the local dependency bucket, the locked
  dependency bucket and the scripts bucket; the summary has the scripts bucket and, for
  each kind, a map with the entries of the local bucket and of the locked bucket of that
  kind. An install command is classifiable when the classifier returns, with an alias or
  without, on each of its diagnostics.
\<close>

fun thrown :: "'a result \<Rightarrow> error option" where
  "thrown (Ok x st) = None"
| "thrown (Throw e st) = Some e"

fun isSummaryWrite :: "jsstring \<Rightarrow> event \<Rightarrow> bool" where
  "isSummaryWrite exp (WriteFile p d) = (p = (exp, [''allRemovedItems.json'']))"
| "isSummaryWrite exp _ = False"

definition summaryWrites :: "jsstring \<Rightarrow> state \<Rightarrow> nat" where
  "summaryWrites exp st = length (filter (isSummaryWrite exp) (trace st))"

definition exported :: "jsstring \<Rightarrow> state \<Rightarrow> bool" where
  "exported exp st =
     (map_of (files st) (exp, [''details'', ''removedLocalPackages.json''])
        = Some (MapDoc (removedLocalDeps st))
      \<and> map_of (files st) (exp, [''details'', ''removedLockedPackages.json''])
        = Some (MapDoc (removedLockedDeps st))
      \<and> map_of (files st) (exp, [''details'', ''removedScripts.json''])
        = Some (MapDoc (removedScripts st))
      \<and> (\<exists>deps devDeps.
            map_of (files st) (exp, [''allRemovedItems.json''])
              = Some (SummaryDoc (removedScripts st) deps devDeps)
            \<and> map_of deps = map_of (removedLocalDeps st) ++ map_of (removedLockedDeps st)
            \<and> map_of devDeps
                = map_of (removedLocalDevDeps st) ++ map_of (removedLockedDevDeps st)))"

definition classifiable :: "(nat \<Rightarrow> execResult) \<Rightarrow> bool" where
  "classifiable yarn =
     (\<forall>k err stderr. yarn k = ExecFailed err stderr \<longrightarrow>
        (\<exists>a. parseErrorForPackageAlias err = Inr a))"

text \<open>
  The state at the head of the loop: \<open>loopHead yarn root m st0 k\<close> is the state in which
  the loop, entered in the state \<open>st0\<close> with the budget \<open>m\<close>, tests its condition with
  \<open>retryCount = k\<close>, after \<open>k\<close> attempts that failed and were each followed by a pruning
  step; it is \<open>None\<close> when the loop ends earlier. \<open>budget\<close> is the value of \<open>maxRetries\<close>
  that \<open>cleanPackageJson\<close> computes.
\<close>

fun loopHead ::
  "(nat \<Rightarrow> execResult) \<Rightarrow> jsstring \<Rightarrow> nat \<Rightarrow> state \<Rightarrow> nat \<Rightarrow> state option" where
  "loopHead yarn root m st0 0 = Some st0"
| "loopHead yarn root m st0 (Suc k) =
     (case loopHead yarn root m st0 k of
        None \<Rightarrow> None
      | Some st \<Rightarrow>
          (if k < m then
             (case runCommand (yarn k) ''yarn install'' root
                     (logInfo (js ''Attempting to install dependencies...'') st) of
                (Inr out, st1) \<Rightarrow> None
              | (Inl err, st1) \<Rightarrow>
                  (case parseErrorForPackageAlias err of
                     Inl e \<Rightarrow> None
                   | Inr None \<Rightarrow> None
                   | Inr (Some packageAlias) \<Rightarrow>
                       (if packageAlias = [] then None
                        else (case pruneStep packageAlias root st1 of
                                Throw e st2 \<Rightarrow> None
                              | Ok u st2 \<Rightarrow> Some st2))))
           else None))"

definition budget :: "state \<Rightarrow> nat" where
  "budget st = countKeys (dependencies (packageJson st))
             + countKeys (devDependencies (packageJson st))"

text \<open>
  The state after an install attempt that failed without signal: the state before the
  attempt with four more events in the trace.
\<close>

definition aborted :: "jsstring \<Rightarrow> jsstring \<Rightarrow> jsstring \<Rightarrow> state \<Rightarrow> state" where
  "aborted root err stderr st =
     st\<lparr>trace := trace st @
         [LogInfo (js ''Attempting to install dependencies...''),
          Exec ''yarn install'' root (files st),
          ConsoleError (js ''Error executing command \"'' @ js ''yarn install'' @ js ''\":'') stderr,
          LogError (js ''Could not parse package alias from error:'') (Some err)]\<rparr>"

section \<open>Properties of the pruner\<close>

declare retryLoop.simps [simp del]

lemma removeLoop_eq:
  "removeLoop c es (r, d) =
     (fold (\<lambda>(n, v). assign n v) (filter (\<lambda>(n, v). c n) es) r,
      filter (\<lambda>(n, v). \<not> (c n \<and> n \<in> fst ` set es)) d)"
proof (induction es arbitrary: r d)
  case Nil
  then show ?case by simp
next
  case (Cons e es)
  obtain name version where e: "e = (name, version)" by (cases e)
  show ?case
  proof (cases "c name")
    case True
    have "filter (\<lambda>(n, v). \<not> (c n \<and> n \<in> fst ` set es)) (AList.delete name d) =
          filter (\<lambda>(n, v). \<not> (c n \<and> n \<in> fst ` set (e # es))) d"
      using True by (auto simp: e AList.delete_eq intro!: filter_cong)
    then show ?thesis using True by (simp add: e Cons.IH)
  next
    case False
    have "filter (\<lambda>(n, v). \<not> (c n \<and> n \<in> fst ` set es)) d =
          filter (\<lambda>(n, v). \<not> (c n \<and> n \<in> fst ` set (e # es))) d"
      using False by (auto simp: e intro!: filter_cong)
    then show ?thesis using False by (simp add: e Cons.IH)
  qed
qed

lemma removeLoop_self:
  "removeLoop c d (r, d) =
     (fold (\<lambda>(n, v). assign n v) (filter (\<lambda>(n, v). c n) d) r,
      filter (\<lambda>(n, v). \<not> c n) d)"
proof -
  have "filter (\<lambda>(n, v). \<not> (c n \<and> n \<in> fst ` set d)) d = filter (\<lambda>(n, v). \<not> c n) d"
    by (rule filter_cong) force+
  then show ?thesis by (simp add: removeLoop_eq)
qed

lemma removeAndRecord_Some:
  "removeAndRecordDependencies (Some d) isDevDep ty c st =
     (Some (filter (\<lambda>(n, v). \<not> c n) d),
      setRecord ty isDevDep
        (fold (\<lambda>(n, v). assign n v) (filter (\<lambda>(n, v). c n) d) (getRecord ty isDevDep st)) st)"
  by (simp add: removeAndRecordDependencies_def removeLoop_self)

lemma removeAndRecord_None:
  "removeAndRecordDependencies None isDevDep ty c st = (None, st)"
  by (simp add: removeAndRecordDependencies_def)

lemma map_of_fold_update:
  "map_of (fold (\<lambda>(n, v). AList.update n v) xs r) k =
     (case map_of (rev xs) k of Some v \<Rightarrow> Some v | None \<Rightarrow> map_of r k)"
proof (induction xs arbitrary: r)
  case Nil
  then show ?case by simp
next
  case (Cons x xs)
  obtain n v where x: "x = (n, v)" by (cases x)
  show ?case
    by (auto simp: x Cons.IH AList.update_conv' map_add_def split: option.splits)
qed

lemma map_of_assign:
  "k \<noteq> js ''__proto__'' \<Longrightarrow> map_of (assign n v r) k = (if k = n then Some v else map_of r k)"
  by (simp add: assign_def AList.update_conv')

lemma map_of_fold_assign:
  "k \<noteq> js ''__proto__'' \<Longrightarrow>
   map_of (fold (\<lambda>(n, v). assign n v) xs r) k =
     (case map_of (rev xs) k of Some v \<Rightarrow> Some v | None \<Rightarrow> map_of r k)"
proof (induction xs arbitrary: r)
  case Nil
  then show ?case by simp
next
  case (Cons x xs)
  obtain n v where x: "x = (n, v)" by (cases x)
  from Cons.prems show ?case
    by (auto simp: x Cons.IH map_of_assign map_add_def split: option.splits)
qed

lemma keys_assign:
  "fst ` set (assign n v r) = {k. k = n \<and> k \<noteq> js ''__proto__''} \<union> fst ` set r"
  by (auto simp: assign_def AList.dom_update)

lemma keys_fold_assign:
  "fst ` set (fold (\<lambda>(n, v). assign n v) xs r) =
     {k \<in> fst ` set xs. k \<noteq> js ''__proto__''} \<union> fst ` set r"
proof (induction xs arbitrary: r)
  case Nil
  then show ?case by simp
next
  case (Cons x xs)
  obtain n v where x: "x = (n, v)" by (cases x)
  show ?case by (auto simp: x Cons.IH keys_assign)
qed

lemma distinct_assign: "distinct (map fst r) \<Longrightarrow> distinct (map fst (assign n v r))"
  by (simp add: assign_def AList.distinct_update)

lemma distinct_fold_assign:
  "distinct (map fst r) \<Longrightarrow> distinct (map fst (fold (\<lambda>(n, v). assign n v) xs r))"
proof (induction xs arbitrary: r)
  case Nil
  then show ?case by simp
next
  case (Cons x xs)
  obtain n v where x: "x = (n, v)" by (cases x)
  from Cons.prems show ?case by (simp add: x Cons.IH distinct_assign)
qed

text \<open>A name under an alias has a slash, so it is not \<open>__proto__\<close>.\<close>

lemma under_alias_not_proto: "prefix (alias @ [slash]) n \<Longrightarrow> n \<noteq> js ''__proto__''"
proof
  assume "prefix (alias @ [slash]) n" and "n = js ''__proto__''"
  then have "prefix (alias @ [slash]) (js ''__proto__'')" by simp
  from set_mono_prefix [OF this] have "slash \<in> set (js ''__proto__'')" by simp
  then show False by (simp add: js_def)
qed

lemma getRecord_setRecord: "getRecord ty isDevDep (setRecord ty isDevDep r st) = r"
  by (simp add: getRecord_def setRecord_def)

lemma setRecord_setRecord:
  "setRecord ty isDevDep r (setRecord ty isDevDep r' st) = setRecord ty isDevDep r st"
  by (simp add: setRecord_def)

lemma setRecord_getRecord: "setRecord ty isDevDep (getRecord ty isDevDep st) st = st"
  by (simp add: getRecord_def setRecord_def)

subsection \<open>Alias removal\<close>

text \<open>
  C1. Alias removal is meant to remove the entries named exactly like the alias and the
  entries under \<open>alias/\<close>, and nothing else. The code tests only \<open>startsWith(alias + "/")\<close>:
  with alias \<open>foo\<close> the entry \<open>foo/x\<close> is removed and recorded, \<open>foobar\<close> is kept, and the
  entry named \<open>foo\<close> itself is kept as well.
\<close>

theorem removeAliasDeps_keeps_exact_name:
  "removeAliasDeps (js ''foo'')
     (Some [(js ''foo'', js ''1.0.0''), (js ''foo/x'', js ''2.0.0''), (js ''foobar'', js ''3.0.0'')])
     False (moduleLoaded ds) =
   (Some [(js ''foo'', js ''1.0.0''), (js ''foobar'', js ''3.0.0'')],
    (moduleLoaded ds)\<lparr>removedLocalDeps := [(js ''foo/x'', js ''2.0.0'')]\<rparr>)"
  by (simp add: removeAliasDeps_def removeAndRecord_Some js_def getRecord_def setRecord_def
      moduleLoaded_def assign_def)

subsection \<open>Idempotence\<close>

text \<open>
  C7. Pruner idempotence: for every dependency map (also an absent one), predicate and
  bucket selector, pruning the already pruned map again returns the same map and the same
  state: no bucket changes.
\<close>

theorem removeAndRecordDependencies_idempotent:
  "(case removeAndRecordDependencies deps isDevDep ty c st of
      (deps', st') \<Rightarrow> removeAndRecordDependencies deps' isDevDep ty c st') =
   removeAndRecordDependencies deps isDevDep ty c st"
proof (cases deps)
  case None
  then show ?thesis by (simp add: removeAndRecord_None)
next
  case (Some d)
  have none: "filter (\<lambda>(n, v). c n) (filter (\<lambda>(n, v). \<not> c n) d) = []"
    by (induction d) auto
  have same: "filter (\<lambda>(n, v). \<not> c n) (filter (\<lambda>(n, v). \<not> c n) d) = filter (\<lambda>(n, v). \<not> c n) d"
    by (induction d) auto
  show ?thesis
    by (simp add: Some removeAndRecord_Some none same getRecord_setRecord setRecord_setRecord
        del: filter_filter)
qed


section \<open>Properties of the error classifier\<close>

lemma matchAt_nonempty: "matchAt p s = Some m \<Longrightarrow> m \<noteq> []"
  by (auto simp: matchAt_def Let_def split: if_splits)

lemma exec_nonempty: "exec p s = Some m \<Longrightarrow> m \<noteq> []"
  by (induction s) (auto dest: matchAt_nonempty split: option.splits)

lemma utf16Encode_nonempty: "utf16Encode v \<noteq> []"
  by (simp add: utf16Encode_def)

lemma decodeURIComponent_nonempty:
  "decodeURIComponent m = Some d \<Longrightarrow> m \<noteq> [] \<Longrightarrow> d \<noteq> []"
  by (cases m) (auto simp: Let_def utf16Encode_nonempty split: if_splits option.splits)

lemma aliasMatch_segment:
  "d \<noteq> [] \<Longrightarrow> \<not> prefix [slash] d \<Longrightarrow> aliasMatch d = Some (takeWhile (\<lambda>c. c \<noteq> slash) d)"
  by (cases d) (auto simp: aliasMatch_def)

lemma classify_yarnpkg_host:
  "parseErrorForPackageAlias (js ''https://registry.yarnpkg.com/%40scope%2Fpkg: Not found'')
     = Inr (Some (js ''@scope''))"
  by code_simp

lemma removeAliasDeps_Some:
  "removeAliasDeps alias (Some d) isDevDep st =
     (Some (filter (\<lambda>(n, v). \<not> prefix (alias @ [slash]) n) d),
      setRecord Local isDevDep
        (fold (\<lambda>(n, v). assign n v) (filter (\<lambda>(n, v). prefix (alias @ [slash]) n) d)
           (getRecord Local isDevDep st)) st)"
  by (simp add: removeAliasDeps_def removeAndRecord_Some)

lemma removeAliasDeps_None: "removeAliasDeps alias None isDevDep st = (None, st)"
  by (simp add: removeAliasDeps_def removeAndRecord_None)

subsection \<open>The scoped registry diagnostic\<close>

text \<open>
  C2, as stated: the diagnostic
  \<open>https://registry.example.com/%40scope%2Fpkg: Not found\<close> gives the alias \<open>@scope\<close>.
  The first pattern names the host \<open>registry.yarnpkg.com\<close>, so this text matches no
  pattern and the classifier returns null.
\<close>

theorem example_registry_host_counterexample:
  "parseErrorForPackageAlias (js ''https://registry.example.com/%40scope%2Fpkg: Not found'')
     = Inr None"
  by code_simp

text \<open>
  C2, amended: for the diagnostic \<open>https://registry.yarnpkg.com/%40scope%2Fpkg: Not found\<close>
  the classifier returns the alias \<open>@scope\<close>; pruning a dependency map with that alias
  adds no entry, removes every entry whose name starts with \<open>@scope/\<close> and records it in
  the local bucket, and keeps every entry whose name neither is \<open>@scope\<close> nor starts
  with \<open>@scope/\<close>.
\<close>

theorem scoped_registry_diagnostic:
  "parseErrorForPackageAlias (js ''https://registry.yarnpkg.com/%40scope%2Fpkg: Not found'')
     = Inr (Some (js ''@scope''))
   \<and> (\<exists>deps' st'.
        removeAliasDeps (js ''@scope'') (Some deps) isDevDep st = (Some deps', st')
        \<and> set deps' \<subseteq> set deps
        \<and> (\<forall>e \<in> set deps. prefix (js ''@scope/'') (fst e) \<longrightarrow>
              fst e \<notin> fst ` set deps' \<and> fst e \<in> fst ` set (getRecord Local isDevDep st'))
        \<and> (\<forall>e \<in> set deps. fst e \<noteq> js ''@scope'' \<and> \<not> prefix (js ''@scope/'') (fst e) \<longrightarrow>
              e \<in> set deps'))"
proof -
  have sl: "js ''@scope'' @ [slash] = js ''@scope/''"
    by (simp add: js_def)
  have np: "n \<noteq> js ''__proto__''" if "prefix (js ''@scope/'') n" for n
    using that under_alias_not_proto [of "js ''@scope''" n] by (simp add: sl)
  show ?thesis
    using np
    by (auto simp: classify_yarnpkg_host removeAliasDeps_Some sl getRecord_setRecord keys_fold_assign)
qed

theorem scoped_registry_diagnostic_witness:
  "prefix (js ''@scope/'') (js ''@scope/pkg'')
   \<and> js ''lodash'' \<noteq> js ''@scope'' \<and> \<not> prefix (js ''@scope/'') (js ''lodash'')
   \<and> removeAliasDeps (js ''@scope'')
        (Some [(js ''@scope/pkg'', js ''1.0.0''), (js ''lodash'', js ''4.17.21'')]) False (moduleLoaded [])
      = (Some [(js ''lodash'', js ''4.17.21'')],
         (moduleLoaded [])\<lparr>removedLocalDeps := [(js ''@scope/pkg'', js ''1.0.0'')]\<rparr>)"
  using scoped_registry_diagnostic
    [of "[(js ''@scope/pkg'', js ''1.0.0''), (js ''lodash'', js ''4.17.21'')]" False "moduleLoaded []"]
  by (simp add: removeAliasDeps_Some js_def getRecord_def setRecord_def moduleLoaded_def assign_def)

subsection \<open>The three matchers\<close>

text \<open>
  C3, as stated: every diagnostic that matches one of the three shapes yields its alias,
  and only a text that matches none yields null. Both diagnostics below match the second
  shape; the first one yields null, because the matched text decodes to \<open>/x\<close>, which has
  nothing before the separator, and the second one raises URIError in
  \<open>decodeURIComponent\<close>.
\<close>

theorem shape_without_alias_counterexample:
  "exec couldntFindPackage (js ''error Couldn't find package \"%2Fx\"'') = Some (js ''%2Fx'')
   \<and> parseErrorForPackageAlias (js ''error Couldn't find package \"%2Fx\"'') = Inr None
   \<and> exec couldntFindPackage (js ''error Couldn't find package \"100%\"'') = Some (js ''100%'')
   \<and> parseErrorForPackageAlias (js ''error Couldn't find package \"100%\"'') = Inl URIError"
  by code_simp

lemma leftpad_match:
  "spec_firstMatch (js ''error Couldn't find package \"left-pad\"'') = Some (js ''left-pad'')"
  by code_simp

lemma leftpad_decode: "decodeURIComponent (js ''left-pad'') = Some (js ''left-pad'')"
  by code_simp

lemma leftpad_segment:
  "\<not> prefix [slash] (js ''left-pad'') \<and> takeWhile (\<lambda>c. c \<noteq> slash) (js ''left-pad'') = js ''left-pad''"
  by code_simp

lemma refused_no_match: "spec_firstMatch (js ''Error: connect ECONNREFUSED'') = None"
  by code_simp

text \<open>
  C3, amended: the three matchers are tried in their fixed order. When none matches, the
  classifier returns null. When the first matcher that matches yields a text whose
  percent-decoding succeeds and does not begin with \<open>/\<close>, the classifier returns the part
  of the decoded text before the first \<open>/\<close>.
\<close>

theorem parseErrorForPackageAlias_first_match:
  "(spec_firstMatch s = None \<longrightarrow> parseErrorForPackageAlias s = Inr None)
   \<and> (spec_firstMatch s = Some m \<and> decodeURIComponent m = Some d \<and> \<not> prefix [slash] d \<longrightarrow>
        parseErrorForPackageAlias s = Inr (Some (takeWhile (\<lambda>c. c \<noteq> slash) d)))"
proof (intro conjI impI)
  assume "spec_firstMatch s = None"
  then show "parseErrorForPackageAlias s = Inr None"
    by (auto simp: spec_firstMatch_def parseErrorForPackageAlias_def patterns_def
        split: option.splits)
next
  assume a: "spec_firstMatch s = Some m \<and> decodeURIComponent m = Some d \<and> \<not> prefix [slash] d"
  then have "m \<noteq> []"
    by (auto simp: spec_firstMatch_def dest: exec_nonempty split: option.splits)
  with a have "d \<noteq> []"
    by (auto dest: decodeURIComponent_nonempty)
  with a have al: "aliasMatch d = Some (takeWhile (\<lambda>c. c \<noteq> slash) d)"
    by (simp add: aliasMatch_segment)
  from a al show "parseErrorForPackageAlias s = Inr (Some (takeWhile (\<lambda>c. c \<noteq> slash) d))"
    by (auto simp: spec_firstMatch_def parseErrorForPackageAlias_def patterns_def
        split: option.splits)
qed

theorem parseErrorForPackageAlias_first_match_witness:
  "spec_firstMatch (js ''Error: connect ECONNREFUSED'') = None
   \<and> parseErrorForPackageAlias (js ''Error: connect ECONNREFUSED'') = Inr None
   \<and> spec_firstMatch (js ''error Couldn't find package \"left-pad\"'') = Some (js ''left-pad'')
   \<and> decodeURIComponent (js ''left-pad'') = Some (js ''left-pad'')
   \<and> \<not> prefix [slash] (js ''left-pad'')
   \<and> parseErrorForPackageAlias (js ''error Couldn't find package \"left-pad\"'')
       = Inr (Some (js ''left-pad''))"
  using parseErrorForPackageAlias_first_match
          [of "js ''Error: connect ECONNREFUSED''" "[]" "[]"]
        parseErrorForPackageAlias_first_match
          [of "js ''error Couldn't find package \"left-pad\"''" "js ''left-pad''" "js ''left-pad''"]
  by (simp add: leftpad_match leftpad_decode leftpad_segment refused_no_match)

section \<open>Properties of the retry controller\<close>

subsection \<open>Pruning both maps\<close>

lemma removeAndRecord_eq:
  "removeAndRecordDependencies deps isDevDep ty c st =
     (keepRest c deps, setRecord ty isDevDep (recordAll c deps (getRecord ty isDevDep st)) st)"
  by (cases deps)
     (simp_all add: removeAndRecord_Some removeAndRecord_None keepRest_def recordAll_def
        setRecord_getRecord)

lemma pruneStep_eq:
  "pruneStep a root st =
     (case writeFileSync (pathJoin (root, []) ''package.json'')
             (PackageDoc (packageJson (pruneBoth Local (\<lambda>name. prefix (a @ [slash]) name) st)))
             (pruneBoth Local (\<lambda>name. prefix (a @ [slash]) name) st) of
        Throw e st5 \<Rightarrow> Throw e st5
      | Ok u st5 \<Rightarrow> Ok () (logInfo (js ''Removed packages starting with alias: '' @ a) st5))"
  by (simp add: pruneStep_def removeAliasDeps_def removeAndRecord_eq pruneBoth_def
      getRecord_def setRecord_def)

lemma preFilter_eq:
  "preFilter lockedDeps st = pruneBoth Locked lockedDeps (removeScripts st)"
  by (simp add: preFilter_def removeLockedDeps_def removeAndRecord_eq pruneBoth_def
      getRecord_def setRecord_def Let_def)

subsection \<open>Install attempts\<close>

lemma attempts_emit [simp]: "attempts (emit ev st) = attempts st + (if isExec ev then 1 else 0)"
  by (simp add: attempts_def emit_def)

lemma attempts_log [simp]:
  "attempts (logInfo m st) = attempts st"
  "attempts (logSuccess m st) = attempts st"
  "attempts (logError m e st) = attempts st"
  by (simp_all add: logInfo_def logSuccess_def logError_def)

lemma trace_setRecord [simp]: "trace (setRecord ty dev r st) = trace st"
  by (simp add: setRecord_def)

lemma trace_pruneBoth [simp]: "trace (pruneBoth ty c st) = trace st"
  by (simp add: pruneBoth_def)

lemma attempts_pruneBoth [simp]: "attempts (pruneBoth ty c st) = attempts st"
  by (simp add: attempts_def)

lemma attempts_writeFileSync [simp]: "attempts (stateOf (writeFileSync p d st)) = attempts st"
  by (simp add: writeFileSync_def attempts_def emit_def split: option.splits)

lemma attempts_pruneStep [simp]: "attempts (stateOf (pruneStep a root st)) = attempts st"
proof (cases "writeFileSync (pathJoin (root, []) ''package.json'')
             (PackageDoc (packageJson (pruneBoth Local (\<lambda>name. prefix (a @ [slash]) name) st)))
             (pruneBoth Local (\<lambda>name. prefix (a @ [slash]) name) st)")
  case (Ok u st5)
  then show ?thesis
    using attempts_writeFileSync [of "pathJoin (root, []) ''package.json''"
        "PackageDoc (packageJson (pruneBoth Local (\<lambda>name. prefix (a @ [slash]) name) st))"
        "pruneBoth Local (\<lambda>name. prefix (a @ [slash]) name) st"]
    by (simp add: pruneStep_eq)
next
  case (Throw e st5)
  then show ?thesis
    using attempts_writeFileSync [of "pathJoin (root, []) ''package.json''"
        "PackageDoc (packageJson (pruneBoth Local (\<lambda>name. prefix (a @ [slash]) name) st))"
        "pruneBoth Local (\<lambda>name. prefix (a @ [slash]) name) st"]
    by (simp add: pruneStep_eq)
qed

lemma attempts_runCommand [simp]:
  "attempts (snd (runCommand outcome cmd cwd st)) = Suc (attempts st)"
  by (simp add: runCommand_def Let_def split: execResult.splits)

text \<open>
  An invariant rule for the loop: \<open>I\<close> holds at the loop head, \<open>R\<close> of every way the
  loop ends.
\<close>

lemma retryLoop_rule:
  assumes inv: "I k st"
    and exit: "\<And>k st. I k st \<Longrightarrow> \<not> k < m \<Longrightarrow> R (Ok k st)"
    and success: "\<And>k st out st1. I k st \<Longrightarrow> k < m \<Longrightarrow>
        runCommand (yarn k) ''yarn install'' root
          (logInfo (js ''Attempting to install dependencies...'') st) = (Inr out, st1) \<Longrightarrow>
        R (Ok k (logSuccess (js ''Dependencies installed successfully!'') st1))"
    and uriError: "\<And>k st err st1 e. I k st \<Longrightarrow> k < m \<Longrightarrow>
        runCommand (yarn k) ''yarn install'' root
          (logInfo (js ''Attempting to install dependencies...'') st) = (Inl err, st1) \<Longrightarrow>
        parseErrorForPackageAlias err = Inl e \<Longrightarrow> R (Throw e st1)"
    and abort: "\<And>k st err st1 al. I k st \<Longrightarrow> k < m \<Longrightarrow>
        runCommand (yarn k) ''yarn install'' root
          (logInfo (js ''Attempting to install dependencies...'') st) = (Inl err, st1) \<Longrightarrow>
        parseErrorForPackageAlias err = Inr al \<Longrightarrow> al = None \<or> al = Some [] \<Longrightarrow>
        R (Ok k (logError (js ''Could not parse package alias from error:'') (Some err) st1))"
    and writeError: "\<And>k st err st1 a e st2. I k st \<Longrightarrow> k < m \<Longrightarrow>
        runCommand (yarn k) ''yarn install'' root
          (logInfo (js ''Attempting to install dependencies...'') st) = (Inl err, st1) \<Longrightarrow>
        parseErrorForPackageAlias err = Inr (Some a) \<Longrightarrow> a \<noteq> [] \<Longrightarrow>
        pruneStep a root st1 = Throw e st2 \<Longrightarrow> R (Throw e st2)"
    and pruned: "\<And>k st err st1 a u st2. I k st \<Longrightarrow> k < m \<Longrightarrow>
        runCommand (yarn k) ''yarn install'' root
          (logInfo (js ''Attempting to install dependencies...'') st) = (Inl err, st1) \<Longrightarrow>
        parseErrorForPackageAlias err = Inr (Some a) \<Longrightarrow> a \<noteq> [] \<Longrightarrow>
        pruneStep a root st1 = Ok u st2 \<Longrightarrow> I (k + 1) st2"
  shows "R (retryLoop yarn root m k st)"
  using assms
proof (induction yarn root m k st rule: retryLoop.induct)
  case (1 yarn root m k st)
  note I = "1.prems" (1) and exit = "1.prems" (2) and success = "1.prems" (3)
    and uriError = "1.prems" (4) and abort = "1.prems" (5) and writeError = "1.prems" (6)
    and pruned = "1.prems" (7)
  show ?case
  proof (cases "k < m")
    case False
    then show ?thesis using exit [OF I] by (simp add: retryLoop.simps [of yarn root m k st])
  next
    case True
    note km = this
    let ?st0 = "logInfo (js ''Attempting to install dependencies...'') st"
    obtain r st1 where rc: "runCommand (yarn k) ''yarn install'' root ?st0 = (r, st1)"
      by (cases "runCommand (yarn k) ''yarn install'' root ?st0")
    show ?thesis
    proof (cases r)
      case (Inr out)
      then show ?thesis using success [OF I km] rc km
        by (simp add: retryLoop.simps [of yarn root m k st])
    next
      case (Inl err)
      note r = this
      show ?thesis
      proof (cases "parseErrorForPackageAlias err")
        case (Inl e)
        then show ?thesis using uriError [OF I km] rc km r
          by (simp add: retryLoop.simps [of yarn root m k st])
      next
        case (Inr al)
        note p = this
        show ?thesis
        proof (cases "al = None \<or> al = Some []")
          case True
          then show ?thesis using abort [OF I km _ p] rc km r p
            by (auto simp: retryLoop.simps [of yarn root m k st])
        next
          case False
          then obtain a where al: "al = Some a" and ne: "a \<noteq> []" by (cases al) auto
          show ?thesis
          proof (cases "pruneStep a root st1")
            case (Throw e st2)
            then show ?thesis using writeError [OF I km _ _ ne] rc km r p al ne
              by (simp add: retryLoop.simps [of yarn root m k st])
          next
            case (Ok u st2)
            have I2: "I (k + 1) st2"
              using pruned [OF I km _ _ ne Ok] rc r p al by simp
            have "R (retryLoop yarn root m (k + 1) st2)"
            proof (rule "1.IH" [OF km rc [symmetric] r p al ne Ok I2], goal_cases)
              case 1 then show ?case by (rule exit)
            next
              case 2 then show ?case by (rule success)
            next
              case 3 then show ?case by (rule uriError)
            next
              case 4 then show ?case by (rule abort)
            next
              case 5 then show ?case by (rule writeError)
            next
              case 6 then show ?case by (rule pruned)
            qed
            then show ?thesis using rc km r p al ne Ok
              by (simp add: retryLoop.simps [of yarn root m k st])
          qed
        qed
      qed
    qed
  qed
qed

lemma retryLoop_attempts:
  "attempts (stateOf (retryLoop yarn root m k st)) \<le> attempts st + (m - k)"
proof -
  define a0 where "a0 = attempts st + (m - k)"
  have "attempts (stateOf (retryLoop yarn root m k st)) \<le> a0"
  proof (rule retryLoop_rule [where I = "\<lambda>k st. attempts st + (m - k) \<le> a0"
        and R = "\<lambda>r. attempts (stateOf r) \<le> a0"], goal_cases)
    case 1
    then show ?case by (simp add: a0_def)
  next
    case (2 k st)
    then show ?case by simp
  next
    case (3 k st out st1)
    then show ?case using attempts_runCommand [of "yarn k" "''yarn install''" root
          "logInfo (js ''Attempting to install dependencies...'') st"] by simp
  next
    case (4 k st err st1 e)
    then show ?case using attempts_runCommand [of "yarn k" "''yarn install''" root
          "logInfo (js ''Attempting to install dependencies...'') st"] by simp
  next
    case (5 k st err st1 al)
    then show ?case using attempts_runCommand [of "yarn k" "''yarn install''" root
          "logInfo (js ''Attempting to install dependencies...'') st"] by simp
  next
    case (6 k st err st1 a e st2)
    then show ?case using attempts_runCommand [of "yarn k" "''yarn install''" root
          "logInfo (js ''Attempting to install dependencies...'') st"]
        attempts_pruneStep [of a root st1] by simp
  next
    case (7 k st err st1 a u st2)
    then show ?case using attempts_runCommand [of "yarn k" "''yarn install''" root
          "logInfo (js ''Attempting to install dependencies...'') st"]
        attempts_pruneStep [of a root st1] by simp
  qed
  then show ?thesis by (simp add: a0_def)
qed

lemma attempts_saveRemovedItems [simp]:
  "attempts (stateOf (saveRemovedItems exp st)) = attempts st"
  by (simp add: saveRemovedItems_def saveJson_def writeFileSync_def Let_def emit_def
      logSuccess_def attempts_def split: option.splits)

lemma attempts_removeScripts [simp]: "attempts (removeScripts st) = attempts st"
  by (simp add: removeScripts_def attempts_def logSuccess_def emit_def split: option.splits)

lemma attempts_preFilter [simp]: "attempts (preFilter lockedDeps st) = attempts st"
  by (simp add: preFilter_eq)

lemma attempts_packageJson_update [simp]: "attempts (st\<lparr>packageJson := pj\<rparr>) = attempts st"
  by (simp add: attempts_def)

lemma attempts_attemptInstall:
  "attempts (stateOf (attemptInstallWithRetries yarn root m st)) \<le> attempts st + m"
  using retryLoop_attempts [of yarn root m 0 st]
  by (cases "retryLoop yarn root m 0 st") (simp_all add: attemptInstallWithRetries_def)

lemma countKeys_keepRest: "countKeys (keepRest c deps) \<le> countKeys deps"
  by (cases deps) (simp_all add: countKeys_def keepRest_def)

lemma packageJson_setRecord [simp]: "packageJson (setRecord ty dev r st) = packageJson st"
  by (simp add: setRecord_def)

lemma packageJson_pruneBoth:
  "packageJson (pruneBoth ty c st) =
     (packageJson st)\<lparr>dependencies := keepRest c (dependencies (packageJson st)),
        devDependencies := keepRest c (devDependencies (packageJson st))\<rparr>"
  by (simp add: pruneBoth_def)

lemma dependencies_removeScripts [simp]:
  "dependencies (packageJson (removeScripts st)) = dependencies (packageJson st)"
  "devDependencies (packageJson (removeScripts st)) = devDependencies (packageJson st)"
  by (simp_all add: removeScripts_def logSuccess_def emit_def split: option.splits)

text \<open>
  C4. The retry budget is the number of entries in the two maps when the loop is entered,
  that is after the locked entries have been removed; it is at most the number of entries
  of the initial manifest, and a run performs at most that many install attempts, hence at
  most the initial dependency count plus the initial devDependency count plus one.
\<close>

theorem install_attempts_bounded:
  "(let st1 = preFilter lockedDeps (st\<lparr>packageJson := pj\<rparr>);
        budget = countKeys (dependencies (packageJson st1))
               + countKeys (devDependencies (packageJson st1));
        final = stateOf (cleanPackageJson root lockedDeps exp yarn (Inr pj) st)
    in attempts final \<le> attempts st + budget
     \<and> budget \<le> countKeys (dependencies pj) + countKeys (devDependencies pj)
     \<and> attempts final \<le> attempts st + (countKeys (dependencies pj) + countKeys (devDependencies pj) + 1))"
proof -
  define st1 where "st1 = preFilter lockedDeps (st\<lparr>packageJson := pj\<rparr>)"
  define budget where "budget = countKeys (dependencies (packageJson st1))
               + countKeys (devDependencies (packageJson st1))"
  define final where "final = stateOf (cleanPackageJson root lockedDeps exp yarn (Inr pj) st)"
  have a1: "attempts st1 = attempts st"
    by (simp add: st1_def)
  have b: "budget \<le> countKeys (dependencies pj) + countKeys (devDependencies pj)"
    using countKeys_keepRest [of lockedDeps "dependencies pj"]
      countKeys_keepRest [of lockedDeps "devDependencies pj"]
    by (simp add: budget_def st1_def preFilter_eq packageJson_pruneBoth)
  have f: "attempts final \<le> attempts st + budget"
  proof (cases "writeFileSync (pathJoin (root, []) ''package.json'') (PackageDoc (packageJson st1)) st1")
    case (Throw e st2)
    then have "final = st2"
      by (simp add: final_def cleanPackageJson_def st1_def [symmetric])
    moreover have "attempts st2 = attempts st1"
      using attempts_writeFileSync [of "pathJoin (root, []) ''package.json''"
          "PackageDoc (packageJson st1)" st1] by (simp add: Throw)
    ultimately show ?thesis by (simp add: a1)
  next
    case (Ok u st2)
    have a2: "attempts st2 = attempts st1"
      using attempts_writeFileSync [of "pathJoin (root, []) ''package.json''"
          "PackageDoc (packageJson st1)" st1] by (simp add: Ok)
    have pj2: "packageJson st2 = packageJson st1"
      using Ok by (auto simp: writeFileSync_def emit_def split: if_splits option.splits)
    have m: "countKeys (dependencies (packageJson st2)) + countKeys (devDependencies (packageJson st2)) = budget"
      by (simp add: pj2 budget_def)
    show ?thesis
    proof (cases "attemptInstallWithRetries yarn root budget st2")
      case (Throw e st3)
      then have "final = st3"
        by (simp add: final_def cleanPackageJson_def st1_def [symmetric] Ok m Let_def)
      then show ?thesis
        using attempts_attemptInstall [of yarn root budget st2] by (simp add: Throw a1 a2)
    next
      case (Ok v st3)
      then have "final = stateOf (saveRemovedItems exp st3)"
        by (simp add: final_def cleanPackageJson_def st1_def [symmetric] \<open>writeFileSync _ _ _ = Ok u st2\<close> m Let_def)
      then show ?thesis
        using attempts_attemptInstall [of yarn root budget st2] by (simp add: Ok a1 a2)
    qed
  qed
  show ?thesis
    using b f by (simp add: Let_def st1_def [symmetric] budget_def [symmetric] final_def [symmetric])
qed

subsection \<open>The pruning transition\<close>

lemma entries_keepRest: "entries (keepRest c deps) = {e \<in> entries deps. \<not> c (fst e)}"
  by (cases deps) (auto simp: entries_def keepRest_def)

lemma countKeys_keepRest_less:
  assumes "\<exists>e \<in> entries deps. c (fst e)"
  shows "countKeys (keepRest c deps) < countKeys deps"
proof (cases deps)
  case None
  then show ?thesis using assms by (simp add: entries_def)
next
  case (Some d)
  from assms obtain e where "e \<in> set d" "c (fst e)" by (auto simp: Some entries_def)
  then have "length (filter (\<lambda>(n, v). \<not> c n) d) < length d"
    by (intro length_filter_less [of e]) auto
  then show ?thesis by (simp add: Some countKeys_def keepRest_def)
qed

lemma packageJson_writeFileSync [simp]:
  "packageJson (stateOf (writeFileSync p d st)) = packageJson st"
  by (simp add: writeFileSync_def emit_def split: option.splits)

lemma packageJson_emit [simp]: "packageJson (emit ev st) = packageJson st"
  by (simp add: emit_def)

lemma packageJson_pruneStep:
  "packageJson (stateOf (pruneStep a root st)) =
     packageJson (pruneBoth Local (\<lambda>name. prefix (a @ [slash]) name) st)"
proof (cases "writeFileSync (pathJoin (root, []) ''package.json'')
             (PackageDoc (packageJson (pruneBoth Local (\<lambda>name. prefix (a @ [slash]) name) st)))
             (pruneBoth Local (\<lambda>name. prefix (a @ [slash]) name) st)")
  case (Ok u st5)
  then show ?thesis
    using packageJson_writeFileSync [of "pathJoin (root, []) ''package.json''"
        "PackageDoc (packageJson (pruneBoth Local (\<lambda>name. prefix (a @ [slash]) name) st))"
        "pruneBoth Local (\<lambda>name. prefix (a @ [slash]) name) st"]
    by (simp add: pruneStep_eq logInfo_def)
next
  case (Throw e st5)
  then show ?thesis
    using packageJson_writeFileSync [of "pathJoin (root, []) ''package.json''"
        "PackageDoc (packageJson (pruneBoth Local (\<lambda>name. prefix (a @ [slash]) name) st))"
        "pruneBoth Local (\<lambda>name. prefix (a @ [slash]) name) st"]
    by (simp add: pruneStep_eq)
qed

lemma acme_alias:
  "parseErrorForPackageAlias (js ''error Couldn't find package \"@acme/x\"'') = Inr (Some (js ''@acme''))"
  by code_simp

text \<open>
  C5, as stated: every pruning transition removes at least one name from the manifest.
  The diagnostic below names a package that the manifest does not list (yarn reports
  packages it cannot resolve wherever they are required); the classifier returns the
  alias \<open>@acme\<close>, the pruning step runs and the manifest is what it was.
\<close>

theorem pruning_without_removal_counterexample:
  "parseErrorForPackageAlias (js ''error Couldn't find package \"@acme/x\"'') = Inr (Some (js ''@acme''))
   \<and> packageJson (stateOf (pruneStep (js ''@acme'') (js ''/app'')
        ((moduleLoaded [(js ''/app'', [])])
           \<lparr>packageJson := \<lparr>dependencies = Some [(js ''lodash'', js ''4.17.21'')],
                             devDependencies = None, scripts = None\<rparr>\<rparr>)))
     = \<lparr>dependencies = Some [(js ''lodash'', js ''4.17.21'')], devDependencies = None, scripts = None\<rparr>"
proof (rule conjI)
  show "parseErrorForPackageAlias (js ''error Couldn't find package \"@acme/x\"'')
          = Inr (Some (js ''@acme''))"
    by (rule acme_alias)
  show "packageJson (stateOf (pruneStep (js ''@acme'') (js ''/app'')
        ((moduleLoaded [(js ''/app'', [])])
           \<lparr>packageJson := \<lparr>dependencies = Some [(js ''lodash'', js ''4.17.21'')],
                             devDependencies = None, scripts = None\<rparr>\<rparr>)))
     = \<lparr>dependencies = Some [(js ''lodash'', js ''4.17.21'')], devDependencies = None, scripts = None\<rparr>"
    by (simp add: packageJson_pruneStep packageJson_pruneBoth keepRest_def js_def moduleLoaded_def)
qed

text \<open>
  C5, amended: a pruning transition with alias \<open>a\<close> adds no entry to either map, removes
  every entry whose name begins with \<open>a/\<close>, keeps every entry whose name neither is \<open>a\<close>
  nor begins with \<open>a/\<close>, and strictly shrinks the manifest whenever some name of the two
  maps begins with \<open>a/\<close>.
\<close>

theorem pruneStep_shrinks:
  "(let pj = packageJson st;
        pj' = packageJson (stateOf (pruneStep alias root st))
    in entries (dependencies pj') \<subseteq> entries (dependencies pj)
     \<and> entries (devDependencies pj') \<subseteq> entries (devDependencies pj)
     \<and> (\<forall>n. prefix (alias @ [slash]) n \<longrightarrow>
            n \<notin> names (dependencies pj') \<and> n \<notin> names (devDependencies pj'))
     \<and> (\<forall>e \<in> entries (dependencies pj). fst e \<noteq> alias \<and> \<not> prefix (alias @ [slash]) (fst e)
            \<longrightarrow> e \<in> entries (dependencies pj'))
     \<and> (\<forall>e \<in> entries (devDependencies pj). fst e \<noteq> alias \<and> \<not> prefix (alias @ [slash]) (fst e)
            \<longrightarrow> e \<in> entries (devDependencies pj'))
     \<and> ((\<exists>n \<in> names (dependencies pj) \<union> names (devDependencies pj). prefix (alias @ [slash]) n)
          \<longrightarrow> countKeys (dependencies pj') + countKeys (devDependencies pj')
              < countKeys (dependencies pj) + countKeys (devDependencies pj)))"
proof -
  let ?c = "\<lambda>name. prefix (alias @ [slash]) name"
  have less: "countKeys (keepRest ?c (dependencies (packageJson st)))
            + countKeys (keepRest ?c (devDependencies (packageJson st)))
            < countKeys (dependencies (packageJson st)) + countKeys (devDependencies (packageJson st))"
    if "\<exists>n \<in> names (dependencies (packageJson st)) \<union> names (devDependencies (packageJson st)). ?c n"
  proof -
    from that consider "\<exists>e \<in> entries (dependencies (packageJson st)). ?c (fst e)"
      | "\<exists>e \<in> entries (devDependencies (packageJson st)). ?c (fst e)"
      by (auto simp: names_def)
    then show ?thesis
    proof cases
      case 1
      then show ?thesis
        using countKeys_keepRest_less [of "dependencies (packageJson st)" ?c]
          countKeys_keepRest [of ?c "devDependencies (packageJson st)"] by linarith
    next
      case 2
      then show ?thesis
        using countKeys_keepRest_less [of "devDependencies (packageJson st)" ?c]
          countKeys_keepRest [of ?c "dependencies (packageJson st)"] by linarith
    qed
  qed
  show ?thesis
    unfolding Let_def packageJson_pruneStep packageJson_pruneBoth
    using less by (auto simp: entries_keepRest names_def)
qed

theorem pruneStep_shrinks_witness:
  "js ''@acme/x'' \<in> names (Some [(js ''@acme/x'', js ''1.0.0''), (js ''lodash'', js ''4.17.21'')])
   \<and> prefix (js ''@acme'' @ [slash]) (js ''@acme/x'')
   \<and> packageJson (stateOf (pruneStep (js ''@acme'') (js ''/app'')
        ((moduleLoaded [(js ''/app'', [])])
           \<lparr>packageJson :=
              \<lparr>dependencies = Some [(js ''@acme/x'', js ''1.0.0''), (js ''lodash'', js ''4.17.21'')],
               devDependencies = None, scripts = None\<rparr>\<rparr>)))
     = \<lparr>dependencies = Some [(js ''lodash'', js ''4.17.21'')], devDependencies = None, scripts = None\<rparr>
   \<and> countKeys (Some [(js ''lodash'', js ''4.17.21'')]) + countKeys None
     < countKeys (Some [(js ''@acme/x'', js ''1.0.0''), (js ''lodash'', js ''4.17.21'')]) + countKeys None"
  using pruneStep_shrinks [of "(moduleLoaded [(js ''/app'', [])])
           \<lparr>packageJson :=
              \<lparr>dependencies = Some [(js ''@acme/x'', js ''1.0.0''), (js ''lodash'', js ''4.17.21'')],
               devDependencies = None, scripts = None\<rparr>\<rparr>" "js ''@acme''" "js ''/app''"]
  by (simp add: packageJson_pruneStep packageJson_pruneBoth keepRest_def js_def moduleLoaded_def
      names_def entries_def countKeys_def)

section \<open>Conservation\<close>

lemma map_of_filter_not: "map_of (filter (\<lambda>(n, v). \<not> c n) d) k = (if c k then None else map_of d k)"
  by (induction d) auto

lemma map_of_filter_yes: "map_of (filter (\<lambda>(n, v). c n) d) k = (if c k then map_of d k else None)"
  by (induction d) auto

lemma map_of_rev_distinct: "distinct (map fst xs) \<Longrightarrow> map_of (rev xs) = map_of xs"
  by (rule map_of_inject_set [THEN iffD2]) (simp_all add: rev_map [symmetric])

lemma lookupDep_keepRest: "lookupDep (keepRest c deps) n = (if c n then None else lookupDep deps n)"
  by (cases deps) (simp_all add: lookupDep_def keepRest_def map_of_filter_not)

lemma map_of_recordAll:
  assumes "distinctKeys deps" and "n \<noteq> js ''__proto__''"
  shows "map_of (recordAll c deps r) n =
           (if c n \<and> lookupDep deps n \<noteq> None then lookupDep deps n else map_of r n)"
proof (cases deps)
  case None
  then show ?thesis by (simp add: recordAll_def lookupDep_def)
next
  case (Some d)
  have "distinct (map fst (filter (\<lambda>(n, v). c n) d))"
    using assms by (simp add: Some distinctKeys_def distinct_map_filter)
  then have "map_of (rev (filter (\<lambda>(n, v). c n) d)) = map_of (filter (\<lambda>(n, v). c n) d)"
    by (rule map_of_rev_distinct)
  then show ?thesis
    using assms(2)
    by (auto simp: Some recordAll_def lookupDep_def map_of_fold_assign map_of_filter_yes
        split: option.splits)
qed

lemma distinct_recordAll:
  "distinct (map fst r) \<Longrightarrow> distinct (map fst (recordAll c deps r))"
  by (cases deps) (simp_all add: recordAll_def distinct_fold_assign)

lemma bucketsDistinct_pruneBoth:
  "bucketsDistinct st \<Longrightarrow> bucketsDistinct (pruneBoth ty c st)"
  by (cases ty)
     (simp_all add: bucketsDistinct_def pruneBoth_def setRecord_def getRecord_def
        distinct_recordAll)

lemma bucketsDistinct_io [simp]:
  "bucketsDistinct (st\<lparr>files := f, trace := t\<rparr>) = bucketsDistinct st"
  by (simp add: bucketsDistinct_def)

lemma distinctKeys_keepRest: "distinctKeys deps \<Longrightarrow> distinctKeys (keepRest c deps)"
  by (cases deps) (simp_all add: distinctKeys_def keepRest_def distinct_map_filter)

lemma exactlyOne_move_local:
  "exactlyOne orig k l lk \<Longrightarrow>
   exactlyOne orig (if c then None else k) (if c \<and> k \<noteq> None then k else l) lk"
  by (auto simp: exactlyOne_def split: option.splits)

lemma exactlyOne_move_locked:
  "exactlyOne orig k l lk \<Longrightarrow>
   exactlyOne orig (if c then None else k) l (if c \<and> k \<noteq> None then k else lk)"
  by (auto simp: exactlyOne_def split: option.splits)

lemma conserved_pruneBoth:
  assumes "conserved pj st"
  shows "conserved pj (pruneBoth ty c st)"
proof (cases ty)
  case Local
  show ?thesis
    using assms
    by (simp add: conserved_def Local pruneBoth_def setRecord_def getRecord_def
        distinctKeys_keepRest lookupDep_keepRest map_of_recordAll exactlyOne_move_local
        del: not_None_eq)
next
  case Locked
  show ?thesis
    using assms
    by (simp add: conserved_def Locked pruneBoth_def setRecord_def getRecord_def
        distinctKeys_keepRest lookupDep_keepRest map_of_recordAll exactlyOne_move_locked
        del: not_None_eq)
qed

text \<open>Steps that only write files or extend the trace.\<close>

lemma emit_io: "\<exists>f t. emit ev st = st\<lparr>files := f, trace := t\<rparr>"
  by (rule exI [of _ "files st"], rule exI [of _ "trace st @ [ev]"]) (simp add: emit_def)

lemma writeFileSync_io: "\<exists>f t. stateOf (writeFileSync p d st) = st\<lparr>files := f, trace := t\<rparr>"
proof (cases "dirname p \<in> set (dirs st) \<and> faults st (length (trace st)) = None")
  case True
  show ?thesis
    by (rule exI [of _ "AList.update p d (files st)"], rule exI [of _ "trace st @ [WriteFile p d]"])
       (simp add: writeFileSync_def emit_def True)
next
  case False
  then have "stateOf (writeFileSync p d st) = st"
    by (auto simp: writeFileSync_def split: option.splits)
  then show ?thesis
    by (intro exI [of _ "files st"] exI [of _ "trace st"]) simp
qed

lemma runCommand_io: "\<exists>f t. snd (runCommand outcome cmd cwd st) = st\<lparr>files := f, trace := t\<rparr>"
proof (cases outcome)
  case (ExecOk out)
  show ?thesis
    by (rule exI [of _ "files st"],
        rule exI [of _ "trace st @ [Exec cmd cwd (files st), ConsoleLog out]"])
       (simp add: runCommand_def emit_def ExecOk)
next
  case (ExecFailed err stderr)
  show ?thesis
    by (rule exI [of _ "files st"],
        rule exI [of _ "trace st @ [Exec cmd cwd (files st),
              ConsoleError (js ''Error executing command \"'' @ js cmd @ js ''\":'') stderr]"])
       (simp add: runCommand_def emit_def ExecFailed)
qed

lemma saveJson_io: "\<exists>f t. stateOf (saveJson dir name d st) = st\<lparr>files := f, trace := t\<rparr>"
  by (simp add: saveJson_def writeFileSync_io)

lemma saveRemovedItems_io:
  "\<exists>f t. stateOf (saveRemovedItems exp st) = st\<lparr>files := f, trace := t\<rparr>"
proof -
  let ?d = "pathJoin (exp, []) ''details''"
  obtain f1 t1 where s1: "stateOf (saveJson ?d ''removedLocalPackages.json'' (MapDoc (removedLocalDeps st)) st)
      = st\<lparr>files := f1, trace := t1\<rparr>"
    using saveJson_io by blast
  show ?thesis
  proof (cases "saveJson ?d ''removedLocalPackages.json'' (MapDoc (removedLocalDeps st)) st")
    case (Throw e st1)
    then show ?thesis using s1 by (auto simp: saveRemovedItems_def Let_def)
  next
    case (Ok u1 st1)
    note o1 = this
    then have st1: "st1 = st\<lparr>files := f1, trace := t1\<rparr>" using s1 by simp
    obtain f2 t2 where s2: "stateOf (saveJson ?d ''removedLockedPackages.json'' (MapDoc (removedLockedDeps st1)) st1)
      = st1\<lparr>files := f2, trace := t2\<rparr>"
      using saveJson_io by blast
    show ?thesis
    proof (cases "saveJson ?d ''removedLockedPackages.json'' (MapDoc (removedLockedDeps st1)) st1")
      case (Throw e st2)
      then show ?thesis using s2 o1 st1 by (auto simp: saveRemovedItems_def Let_def)
    next
      case (Ok u2 st2)
      note o2 = this
      then have st2: "st2 = st\<lparr>files := f2, trace := t2\<rparr>" using s2 st1 by simp
      obtain f3 t3 where s3: "stateOf (saveJson ?d ''removedScripts.json'' (MapDoc (removedScripts st2)) st2)
        = st2\<lparr>files := f3, trace := t3\<rparr>"
        using saveJson_io by blast
      show ?thesis
      proof (cases "saveJson ?d ''removedScripts.json'' (MapDoc (removedScripts st2)) st2")
        case (Throw e st3)
        then show ?thesis using s3 o1 o2 st2 by (auto simp: saveRemovedItems_def Let_def)
      next
        case (Ok u3 st3)
        note o3 = this
        then have st3: "st3 = st\<lparr>files := f3, trace := t3\<rparr>" using s3 st2 by simp
        let ?doc = "SummaryDoc (removedScripts st3)
                      (spread (removedLocalDeps st3) (removedLockedDeps st3))
                      (spread (removedLocalDevDeps st3) (removedLockedDevDeps st3))"
        obtain f4 t4 where s4: "stateOf (saveJson (exp, []) ''allRemovedItems.json'' ?doc st3)
          = st3\<lparr>files := f4, trace := t4\<rparr>"
          using saveJson_io by blast
        show ?thesis
        proof (cases "saveJson (exp, []) ''allRemovedItems.json'' ?doc st3")
          case (Throw e st4)
          then have "stateOf (saveRemovedItems exp st) = st4"
            using o1 o2 o3 by (simp add: saveRemovedItems_def Let_def)
          then show ?thesis using s4 Throw st3 by auto
        next
          case (Ok u4 st4)
          then have "stateOf (saveRemovedItems exp st)
              = logSuccess (js ''Saved removed items to '' @ exp) st4"
            using o1 o2 o3 by (simp add: saveRemovedItems_def Let_def)
          moreover have "st4 = st\<lparr>files := f4, trace := t4\<rparr>" using s4 Ok st3 by simp
          ultimately show ?thesis
            using emit_io [of "LogSuccess (js ''Saved removed items to '' @ exp)" st4]
            by (auto simp: logSuccess_def)
        qed
      qed
    qed
  qed
qed

lemma pruneStep_io:
  "\<exists>f t. stateOf (pruneStep a root st) =
      (pruneBoth Local (\<lambda>name. prefix (a @ [slash]) name) st)\<lparr>files := f, trace := t\<rparr>"
proof -
  let ?st4 = "pruneBoth Local (\<lambda>name. prefix (a @ [slash]) name) st"
  let ?w = "writeFileSync (pathJoin (root, []) ''package.json'') (PackageDoc (packageJson ?st4)) ?st4"
  obtain f t where w: "stateOf ?w = ?st4\<lparr>files := f, trace := t\<rparr>"
    using writeFileSync_io by blast
  show ?thesis
  proof (cases ?w)
    case (Throw e st5)
    then show ?thesis using w by (auto simp: pruneStep_eq)
  next
    case (Ok u st5)
    then show ?thesis
      using w emit_io [of "LogInfo (js ''Removed packages starting with alias: '' @ a)" st5]
      by (auto simp: pruneStep_eq logInfo_def)
  qed
qed

lemma conserved_io [simp]: "conserved pj (st\<lparr>files := f, trace := t\<rparr>) = conserved pj st"
  by (simp add: conserved_def)

lemma conserved_emit [simp]: "conserved pj (emit ev st) = conserved pj st"
  by (simp add: conserved_def emit_def)

lemma conserved_runCommand:
  "runCommand outcome cmd cwd st = (r, st1) \<Longrightarrow> conserved pj st1 = conserved pj st"
  using runCommand_io [of outcome cmd cwd st] by auto

lemma conserved_pruneStep:
  "conserved pj st \<Longrightarrow> conserved pj (stateOf (pruneStep a root st))"
  using pruneStep_io [of a root st] conserved_pruneBoth [of pj st Local] by auto

lemma conserved_retryLoop:
  assumes "conserved pj st"
  shows "conserved pj (stateOf (retryLoop yarn root m k st))"
proof (rule retryLoop_rule [where I = "\<lambda>k st. conserved pj st"
      and R = "\<lambda>r. conserved pj (stateOf r)"], goal_cases)
  case 1
  then show ?case by (rule assms)
next
  case (2 k st)
  then show ?case by simp
next
  case (3 k st out st1)
  then show ?case by (simp add: conserved_runCommand logInfo_def logSuccess_def)
next
  case (4 k st err st1 e)
  then show ?case by (simp add: conserved_runCommand logInfo_def)
next
  case (5 k st err st1 al)
  then show ?case by (simp add: conserved_runCommand logInfo_def logError_def)
next
  case (6 k st err st1 a e st2)
  then have "conserved pj st1" by (simp add: conserved_runCommand logInfo_def)
  then show ?case using conserved_pruneStep [of pj st1 a root] 6 by simp
next
  case (7 k st err st1 a u st2)
  then have "conserved pj st1" by (simp add: conserved_runCommand logInfo_def)
  then show ?case using conserved_pruneStep [of pj st1 a root] 7 by simp
qed

lemma conserved_attemptInstall:
  assumes "conserved pj st"
  shows "conserved pj (stateOf (attemptInstallWithRetries yarn root m st))"
  using conserved_retryLoop [OF assms, of yarn root m 0]
  by (cases "retryLoop yarn root m 0 st") (simp_all add: attemptInstallWithRetries_def logError_def)

lemma conserved_removeScripts [simp]: "conserved pj (removeScripts st) = conserved pj st"
  by (simp add: removeScripts_def conserved_def logSuccess_def emit_def split: option.splits)

lemma conserved_writeFileSync:
  "conserved pj (stateOf (writeFileSync p d st)) = conserved pj st"
  using writeFileSync_io [of p d st] by auto

lemma conserved_saveRemovedItems:
  "conserved pj (stateOf (saveRemovedItems exp st)) = conserved pj st"
  using saveRemovedItems_io [of exp st] by auto

lemma conserved_cleanPackageJson:
  assumes "conserved pj (st\<lparr>packageJson := pj0\<rparr>)"
  shows "conserved pj (stateOf (cleanPackageJson root lockedDeps exp yarn (Inr pj0) st))"
proof -
  define st1 where "st1 = preFilter lockedDeps (st\<lparr>packageJson := pj0\<rparr>)"
  have c1: "conserved pj st1"
    using assms by (simp add: st1_def preFilter_eq conserved_pruneBoth)
  let ?w = "writeFileSync (pathJoin (root, []) ''package.json'') (PackageDoc (packageJson st1)) st1"
  have cw: "conserved pj (stateOf ?w)"
    using c1 by (simp add: conserved_writeFileSync)
  show ?thesis
  proof (cases ?w)
    case (Throw e st2)
    then show ?thesis using cw by (simp add: cleanPackageJson_def st1_def [symmetric])
  next
    case (Ok u st2)
    note w = this
    define m where "m = countKeys (dependencies (packageJson st2))
                      + countKeys (devDependencies (packageJson st2))"
    have c2: "conserved pj st2" using cw w by simp
    have ca: "conserved pj (stateOf (attemptInstallWithRetries yarn root m st2))"
      using c2 by (rule conserved_attemptInstall)
    show ?thesis
    proof (cases "attemptInstallWithRetries yarn root m st2")
      case (Throw e st3)
      then show ?thesis using ca w
        by (simp add: cleanPackageJson_def st1_def [symmetric] Let_def m_def [symmetric])
    next
      case (Ok v st3)
      then show ?thesis using ca w
        by (simp add: cleanPackageJson_def st1_def [symmetric] Let_def m_def [symmetric]
            conserved_saveRemovedItems)
    qed
  qed
qed

text \<open>
  C6, as stated: every name of the original maps that has left the manifest is in exactly
  one bucket. The buckets are kept per kind: in the run below \<open>lodash\<close> is a locked
  package that the manifest lists as a dependency and as a devDependency, and at the end
  it is in two buckets, the locked dependency bucket and the locked devDependency
  bucket.
\<close>

theorem name_in_two_buckets_counterexample:
  "removedLockedDeps (stateOf (cleanPackageJson (js ''/app'') (\<lambda>n. n = js ''lodash'') (js ''/out'')
       (\<lambda>k. ExecOk [])
       (Inr \<lparr>dependencies = Some [(js ''lodash'', js ''4.17.21'')],
             devDependencies = Some [(js ''lodash'', js ''4.17.21'')], scripts = None\<rparr>)
       (moduleLoaded [(js ''/app'', []), (js ''/out'', []), (js ''/out'', [''details''])])))
     = [(js ''lodash'', js ''4.17.21'')]
   \<and> removedLockedDevDeps (stateOf (cleanPackageJson (js ''/app'') (\<lambda>n. n = js ''lodash'') (js ''/out'')
       (\<lambda>k. ExecOk [])
       (Inr \<lparr>dependencies = Some [(js ''lodash'', js ''4.17.21'')],
             devDependencies = Some [(js ''lodash'', js ''4.17.21'')], scripts = None\<rparr>)
       (moduleLoaded [(js ''/app'', []), (js ''/out'', []), (js ''/out'', [''details''])])))
     = [(js ''lodash'', js ''4.17.21'')]
   \<and> packageJson (stateOf (cleanPackageJson (js ''/app'') (\<lambda>n. n = js ''lodash'') (js ''/out'')
       (\<lambda>k. ExecOk [])
       (Inr \<lparr>dependencies = Some [(js ''lodash'', js ''4.17.21'')],
             devDependencies = Some [(js ''lodash'', js ''4.17.21'')], scripts = None\<rparr>)
       (moduleLoaded [(js ''/app'', []), (js ''/out'', []), (js ''/out'', [''details''])])))
     = \<lparr>dependencies = Some [], devDependencies = Some [], scripts = None\<rparr>"
  by code_simp

text \<open>
  C6, amended: conservation law, kind by kind, for a run in a freshly loaded module on a
  manifest whose maps have distinct keys, whatever the install command answers and
  whatever the file system refuses. At the end of the run, however it ends, every entry
  of the original dependency map with a name other than \<open>__proto__\<close> is, with its
  version, in exactly one of the final dependency map, the local dependency bucket and
  the locked dependency bucket, and a name other than \<open>__proto__\<close> that the original
  dependency map does not have is in none of the three; likewise for the devDependency
  map, the local devDependency bucket and the locked devDependency bucket.
\<close>

theorem conservation:
  assumes "distinctKeys (dependencies pj)" and "distinctKeys (devDependencies pj)"
    and "n \<noteq> js ''__proto__''"
  shows "(let st' = stateOf (cleanPackageJson root lockedDeps exp yarn (Inr pj)
                       ((moduleLoaded ds)\<lparr>faults := fl\<rparr>))
          in exactlyOne (lookupDep (dependencies pj) n)
               (lookupDep (dependencies (packageJson st')) n)
               (map_of (removedLocalDeps st') n) (map_of (removedLockedDeps st') n)
           \<and> exactlyOne (lookupDep (devDependencies pj) n)
               (lookupDep (devDependencies (packageJson st')) n)
               (map_of (removedLocalDevDeps st') n) (map_of (removedLockedDevDeps st') n))"
proof -
  have same: "exactlyOne x x None None" for x
    by (simp add: exactlyOne_def split: option.splits)
  have "conserved pj ((moduleLoaded ds)\<lparr>faults := fl, packageJson := pj\<rparr>)"
    using assms by (simp add: conserved_def moduleLoaded_def same)
  then have "conserved pj (stateOf (cleanPackageJson root lockedDeps exp yarn (Inr pj)
                ((moduleLoaded ds)\<lparr>faults := fl\<rparr>)))"
    by (rule conserved_cleanPackageJson)
  then show ?thesis using assms(3) by (simp add: conserved_def Let_def)
qed

theorem conservation_witness:
  "distinctKeys (Some [(js ''@acme/internal-lib'', js ''1.0.0''), (js ''lodash'', js ''4.17.21'')])
   \<and> distinctKeys None
   \<and> js ''@acme/internal-lib'' \<noteq> js ''__proto__''
   \<and> (let st' = stateOf (cleanPackageJson (js ''/app'') (\<lambda>n. n = js ''@acme/internal-lib'')
                     (js ''/out'') (\<lambda>k. ExecOk [])
                     (Inr \<lparr>dependencies =
                             Some [(js ''@acme/internal-lib'', js ''1.0.0''),
                                   (js ''lodash'', js ''4.17.21'')],
                           devDependencies = None, scripts = None\<rparr>)
                     ((moduleLoaded [(js ''/app'', [])])\<lparr>faults := (\<lambda>i. None)\<rparr>))
        in exactlyOne (Some (js ''1.0.0''))
             (lookupDep (dependencies (packageJson st')) (js ''@acme/internal-lib''))
             (map_of (removedLocalDeps st') (js ''@acme/internal-lib''))
             (map_of (removedLockedDeps st') (js ''@acme/internal-lib'')))"
proof -
  have d1: "distinctKeys (dependencies \<lparr>dependencies =
                             Some [(js ''@acme/internal-lib'', js ''1.0.0''),
                                   (js ''lodash'', js ''4.17.21'')],
                           devDependencies = None, scripts = None\<rparr>)"
    by (simp add: distinctKeys_def js_def)
  have d2: "distinctKeys (devDependencies \<lparr>dependencies =
                             Some [(js ''@acme/internal-lib'', js ''1.0.0''),
                                   (js ''lodash'', js ''4.17.21'')],
                           devDependencies = None, scripts = None\<rparr>)"
    by (simp add: distinctKeys_def)
  have np: "js ''@acme/internal-lib'' \<noteq> js ''__proto__''"
    by (simp add: js_def)
  have l: "lookupDep (Some [(js ''@acme/internal-lib'', js ''1.0.0''), (js ''lodash'', js ''4.17.21'')])
             (js ''@acme/internal-lib'') = Some (js ''1.0.0'')"
    by (simp add: lookupDep_def)
  show ?thesis
    using d1 d2 np l
      conservation [OF d1 d2 np, where root = "js ''/app''"
        and lockedDeps = "\<lambda>n. n = js ''@acme/internal-lib''" and exp = "js ''/out''"
        and yarn = "\<lambda>k. ExecOk []" and ds = "[(js ''/app'', [])]" and fl = "\<lambda>i. None"]
    by (simp add: Let_def)
qed

section \<open>Removal of the scripts\<close>

lemma map_of_fold_keys:
  "n \<noteq> js ''__proto__'' \<Longrightarrow>
   map_of (fold (\<lambda>k r. assign k (f k) r) ks r) n =
     (if n \<in> set ks then Some (f n) else map_of r n)"
  by (induction ks arbitrary: r) (auto simp: map_of_assign)

lemma scripts_removeScripts [simp]: "scripts (packageJson (removeScripts st)) = None"
  by (simp add: removeScripts_def logSuccess_def emit_def split: option.splits)

lemma removedScripts_removeScripts:
  assumes np: "n \<noteq> js ''__proto__''"
  shows "map_of (removedScripts (removeScripts st)) n =
     (case lookupDep (scripts (packageJson st)) n of
        Some c \<Rightarrow> Some c
      | None \<Rightarrow> map_of (removedScripts st) n)"
proof (cases "scripts (packageJson st)")
  case None
  then show ?thesis by (simp add: removeScripts_def lookupDep_def)
next
  case (Some s)
  show ?thesis
  proof (cases "n \<in> fst ` set s")
    case True
    then obtain c where "map_of s n = Some c"
      by (metis map_of_eq_None_iff not_None_eq)
    then show ?thesis
      using True np
      by (simp add: Some removeScripts_def lookupDep_def logSuccess_def emit_def map_of_fold_keys)
  next
    case False
    then have "map_of s n = None"
      by (simp add: map_of_eq_None_iff)
    then show ?thesis
      using False np
      by (simp add: Some removeScripts_def lookupDep_def logSuccess_def emit_def map_of_fold_keys)
  qed
qed

lemma removeScripts_absent: "scripts (packageJson st) = None \<Longrightarrow> removeScripts st = st"
  by (simp add: removeScripts_def)

lemma scripts_pruneBoth [simp]:
  "scripts (packageJson (pruneBoth ty c st)) = scripts (packageJson st)"
  by (simp add: pruneBoth_def)

lemma removedScripts_pruneBoth [simp]:
  "removedScripts (pruneBoth ty c st) = removedScripts st"
  by (simp add: pruneBoth_def setRecord_def)

lemma files_pruneBoth [simp]: "files (pruneBoth ty c st) = files st"
  by (simp add: pruneBoth_def setRecord_def)

lemma dirs_pruneBoth [simp]: "dirs (pruneBoth ty c st) = dirs st"
  by (simp add: pruneBoth_def setRecord_def)

lemma faults_pruneBoth [simp]: "faults (pruneBoth ty c st) = faults st"
  by (simp add: pruneBoth_def setRecord_def)

subsection \<open>The steps of the loop, exactly\<close>

lemma pathJoin_simps [simp]:
  "pathJoin (r, segs) name = (r, segs @ [name])"
  "dirname (r, segs) = (r, butlast segs)"
  by (simp_all add: pathJoin_def dirname_def)

lemma writeFileSync_Ok:
  "writeFileSync p d st = Ok u st' \<Longrightarrow>
     st' = st\<lparr>files := AList.update p d (files st), trace := trace st @ [WriteFile p d]\<rparr>
     \<and> dirname p \<in> set (dirs st) \<and> faults st (length (trace st)) = None"
  by (auto simp: writeFileSync_def emit_def split: if_splits option.splits)

lemma writeFileSync_Throw:
  "writeFileSync p d st = Throw e st' \<Longrightarrow>
     st' = st \<and> (dirname p \<notin> set (dirs st) \<or> faults st (length (trace st)) \<noteq> None)"
  by (auto simp: writeFileSync_def split: if_splits option.splits)

lemma writeFileSync_succeeds:
  "dirname p \<in> set (dirs st) \<Longrightarrow> faults st (length (trace st)) = None \<Longrightarrow>
   writeFileSync p d st =
     Ok () (st\<lparr>files := AList.update p d (files st), trace := trace st @ [WriteFile p d]\<rparr>)"
  by (simp add: writeFileSync_def emit_def)

lemma pruneStep_Ok:
  assumes "pruneStep a root st = Ok u st'"
  shows "st' = (pruneBoth Local (\<lambda>name. prefix (a @ [slash]) name) st)
           \<lparr>files := AList.update (root, [''package.json''])
                (PackageDoc (packageJson (pruneBoth Local (\<lambda>name. prefix (a @ [slash]) name) st)))
                (files st),
            trace := trace st @
              [WriteFile (root, [''package.json''])
                 (PackageDoc (packageJson (pruneBoth Local (\<lambda>name. prefix (a @ [slash]) name) st))),
               LogInfo (js ''Removed packages starting with alias: '' @ a)]\<rparr>
         \<and> (root, []) \<in> set (dirs st) \<and> faults st (length (trace st)) = None"
proof -
  let ?st4 = "pruneBoth Local (\<lambda>name. prefix (a @ [slash]) name) st"
  let ?w = "writeFileSync (pathJoin (root, []) ''package.json'') (PackageDoc (packageJson ?st4)) ?st4"
  from assms obtain v st5 where w: "?w = Ok v st5"
    and st': "st' = logInfo (js ''Removed packages starting with alias: '' @ a) st5"
    by (cases ?w) (auto simp: pruneStep_eq)
  from writeFileSync_Ok [OF w] show ?thesis
    by (simp add: st' logInfo_def emit_def)
qed

lemma pruneStep_Throw:
  assumes "pruneStep a root st = Throw e st'"
  shows "st' = pruneBoth Local (\<lambda>name. prefix (a @ [slash]) name) st
         \<and> ((root, []) \<notin> set (dirs st) \<or> faults st (length (trace st)) \<noteq> None)"
proof -
  let ?st4 = "pruneBoth Local (\<lambda>name. prefix (a @ [slash]) name) st"
  let ?w = "writeFileSync (pathJoin (root, []) ''package.json'') (PackageDoc (packageJson ?st4)) ?st4"
  from assms have w: "?w = Throw e st'"
    by (cases ?w) (auto simp: pruneStep_eq)
  from writeFileSync_Throw [OF w] show ?thesis by simp
qed

lemma runCommand_state:
  assumes "runCommand outcome cmd cwd st = (r, st1)"
  shows "\<exists>ev. \<not> isExec ev \<and> (\<forall>root. execSeesNoScripts root ev)
           \<and> st1 = st\<lparr>trace := trace st @ [Exec cmd cwd (files st), ev]\<rparr>"
proof (cases outcome)
  case (ExecOk out)
  with assms have "st1 = st\<lparr>trace := trace st @ [Exec cmd cwd (files st), ConsoleLog out]\<rparr>"
    by (auto simp: runCommand_def emit_def)
  then show ?thesis by (intro exI [of _ "ConsoleLog out"]) simp
next
  case (ExecFailed err stderr)
  with assms have "st1 = st\<lparr>trace := trace st @ [Exec cmd cwd (files st),
      ConsoleError (js ''Error executing command \"'' @ js cmd @ js ''\":'') stderr]\<rparr>"
    by (auto simp: runCommand_def emit_def)
  then show ?thesis
    by (intro exI [of _ "ConsoleError (js ''Error executing command \"'' @ js cmd @ js ''\":'') stderr"])
       simp
qed

lemma scriptsGone_retryLoop:
  assumes "scriptsGone root rs st" and "manifestOnDisk root st"
  shows "scriptsGone root rs (stateOf (retryLoop yarn root m k st))"
proof (rule retryLoop_rule [where I = "\<lambda>k st. scriptsGone root rs st \<and> manifestOnDisk root st"
      and R = "\<lambda>r. scriptsGone root rs (stateOf r)"], goal_cases)
  case 1
  then show ?case using assms by simp
next
  case (2 k st)
  then show ?case by simp
next
  case (3 k st out st1)
  from runCommand_state [OF 3(3)] 3(1) show ?case
    by (auto simp: scriptsGone_def manifestOnDisk_def logInfo_def logSuccess_def emit_def)
next
  case (4 k st err st1 e)
  from runCommand_state [OF 4(3)] 4(1) show ?case
    by (auto simp: scriptsGone_def manifestOnDisk_def logInfo_def emit_def)
next
  case (5 k st err st1 al)
  from runCommand_state [OF 5(3)] 5(1) show ?case
    by (auto simp: scriptsGone_def manifestOnDisk_def logInfo_def logError_def emit_def)
next
  case (6 k st err st1 a e st2)
  from runCommand_state [OF 6(3)] 6(1) pruneStep_Throw [OF 6(6)] show ?case
    by (auto simp: scriptsGone_def manifestOnDisk_def logInfo_def emit_def)
next
  case (7 k st err st1 a u st2)
  from runCommand_state [OF 7(3)] 7(1) pruneStep_Ok [OF 7(6)] show ?case
    by (auto simp: scriptsGone_def manifestOnDisk_def logInfo_def emit_def AList.update_conv')
qed

lemma scriptsGone_saveRemovedItems [simp]:
  "scriptsGone root rs (stateOf (saveRemovedItems exp st)) = scriptsGone root rs st"
  by (simp add: saveRemovedItems_def saveJson_def writeFileSync_def Let_def emit_def
      logSuccess_def scriptsGone_def split: option.splits)

lemma scriptsGone_attemptInstall:
  assumes "scriptsGone root rs st" and "manifestOnDisk root st"
  shows "scriptsGone root rs (stateOf (attemptInstallWithRetries yarn root m st))"
  using scriptsGone_retryLoop [OF assms, of yarn m 0]
  by (cases "retryLoop yarn root m 0 st")
     (simp_all add: attemptInstallWithRetries_def logError_def emit_def scriptsGone_def)

lemma removeScripts_twice:
  "removeScripts ((removeScripts (st\<lparr>packageJson := pj\<rparr>))\<lparr>packageJson := pj\<lparr>scripts := None\<rparr>\<rparr>)
     = removeScripts (st\<lparr>packageJson := pj\<rparr>)"
  by (cases "scripts pj") (simp_all add: removeScripts_def logSuccess_def emit_def)

lemma scriptsGone_cleanPackageJson:
  assumes "scriptsGone root rs (removeScripts (st\<lparr>packageJson := pj\<rparr>))"
  shows "scriptsGone root rs (stateOf (cleanPackageJson root lockedDeps exp yarn (Inr pj) st))"
proof -
  define st1 where "st1 = preFilter lockedDeps (st\<lparr>packageJson := pj\<rparr>)"
  have g1: "scriptsGone root rs st1"
    using assms by (simp add: st1_def preFilter_eq scriptsGone_def)
  let ?w = "writeFileSync (pathJoin (root, []) ''package.json'') (PackageDoc (packageJson st1)) st1"
  show ?thesis
  proof (cases ?w)
    case (Throw e st2)
    with writeFileSync_Throw [OF Throw] g1 show ?thesis
      by (simp add: cleanPackageJson_def st1_def [symmetric])
  next
    case (Ok u st2)
    note w = this
    define m where "m = countKeys (dependencies (packageJson st2))
                      + countKeys (devDependencies (packageJson st2))"
    from writeFileSync_Ok [OF w] g1
    have g2: "scriptsGone root rs st2" and d2: "manifestOnDisk root st2"
      by (simp_all add: scriptsGone_def manifestOnDisk_def AList.update_conv')
    have ga: "scriptsGone root rs (stateOf (attemptInstallWithRetries yarn root m st2))"
      using g2 d2 by (rule scriptsGone_attemptInstall)
    show ?thesis
    proof (cases "attemptInstallWithRetries yarn root m st2")
      case (Throw e st3)
      then show ?thesis using ga w
        by (simp add: cleanPackageJson_def st1_def [symmetric] Let_def m_def [symmetric]
            del: pathJoin_simps)
    next
      case (Ok v st3)
      then show ?thesis using ga w
        by (simp add: cleanPackageJson_def st1_def [symmetric] Let_def m_def [symmetric]
            del: pathJoin_simps)
    qed
  qed
qed

text \<open>
  What holds of the scripts in every run: the run is the run on the manifest without
  scripts, started in the state that \<open>removeScripts\<close> leaves; a script with a name other
  than \<open>__proto__\<close> is recorded with its command; at the end the manifest has no scripts
  and the bucket is the one filled at the start; every install attempt finds a manifest
  without scripts on disk; and a manifest without scripts mapping is left as it is.
\<close>

lemma scripts_removed_except_proto:
  "(let st0 = (moduleLoaded ds)\<lparr>faults := fl, packageJson := pj\<rparr>;
        st' = stateOf (cleanPackageJson root lockedDeps exp yarn (Inr pj)
                 ((moduleLoaded ds)\<lparr>faults := fl\<rparr>))
    in cleanPackageJson root lockedDeps exp yarn (Inr pj) ((moduleLoaded ds)\<lparr>faults := fl\<rparr>)
         = cleanPackageJson root lockedDeps exp yarn (Inr (pj\<lparr>scripts := None\<rparr>)) (removeScripts st0)
     \<and> scripts (packageJson (removeScripts st0)) = None
     \<and> (n \<noteq> js ''__proto__'' \<longrightarrow>
          map_of (removedScripts (removeScripts st0)) n = lookupDep (scripts pj) n)
     \<and> scripts (packageJson st') = None
     \<and> removedScripts st' = removedScripts (removeScripts st0)
     \<and> list_all (execSeesNoScripts root) (trace st')
     \<and> (scripts pj = None \<longrightarrow> removeScripts st0 = st0))"
proof -
  define st0 where "st0 = (moduleLoaded ds)\<lparr>faults := fl, packageJson := pj\<rparr>"
  define st' where "st' = stateOf (cleanPackageJson root lockedDeps exp yarn (Inr pj)
                 ((moduleLoaded ds)\<lparr>faults := fl\<rparr>))"
  have e: "cleanPackageJson root lockedDeps exp yarn (Inr pj) ((moduleLoaded ds)\<lparr>faults := fl\<rparr>)
         = cleanPackageJson root lockedDeps exp yarn (Inr (pj\<lparr>scripts := None\<rparr>)) (removeScripts st0)"
    using removeScripts_twice [where st = "(moduleLoaded ds)\<lparr>faults := fl\<rparr>" and pj = pj]
    by (simp add: cleanPackageJson_def preFilter_eq st0_def)
  have r: "n \<noteq> js ''__proto__'' \<longrightarrow>
             map_of (removedScripts (removeScripts st0)) n = lookupDep (scripts pj) n"
    by (simp add: removedScripts_removeScripts st0_def moduleLoaded_def split: option.splits)
  have t: "list_all (execSeesNoScripts root) (trace (removeScripts st0))"
    by (simp add: removeScripts_def st0_def moduleLoaded_def logSuccess_def emit_def
        split: option.splits)
  have "scriptsGone root (removedScripts (removeScripts st0)) (removeScripts st0)"
    using t by (simp add: scriptsGone_def)
  then have "scriptsGone root (removedScripts (removeScripts st0)) st'"
    unfolding st'_def st0_def
    using scriptsGone_cleanPackageJson [where st = "(moduleLoaded ds)\<lparr>faults := fl\<rparr>" and pj = pj and root = root]
    by simp
  then have g: "scripts (packageJson st') = None"
      "removedScripts st' = removedScripts (removeScripts st0)"
      "list_all (execSeesNoScripts root) (trace st')"
    by (simp_all add: scriptsGone_def)
  have a: "scripts pj = None \<longrightarrow> removeScripts st0 = st0"
    by (simp add: removeScripts_absent st0_def)
  show ?thesis
    unfolding Let_def st0_def [symmetric] st'_def [symmetric]
    using e r g a scripts_removeScripts [of st0] by blast
qed

text \<open>
  C10. The clean operation is meant to delete every script, whatever its name, and to
  record it with its command in the removed-scripts bucket. The code deletes the whole
  mapping, but the assignment \<open>removedScripts[scriptName] = ...\<close> stores nothing for the
  name \<open>__proto__\<close>: of the manifest with the scripts \<open>__proto__\<close> and \<open>build\<close> only
  \<open>build\<close> is recorded, by \<open>removeScripts\<close> and at the end of the run.
\<close>

theorem removeScripts_loses_proto:
  "scripts (packageJson (removeScripts ((moduleLoaded [(js ''/app'', [])])
      \<lparr>packageJson := \<lparr>dependencies = None, devDependencies = None,
           scripts = Some [(js ''__proto__'', js ''echo''), (js ''build'', js ''tsc'')]\<rparr>\<rparr>))) = None
   \<and> removedScripts (removeScripts ((moduleLoaded [(js ''/app'', [])])
      \<lparr>packageJson := \<lparr>dependencies = None, devDependencies = None,
           scripts = Some [(js ''__proto__'', js ''echo''), (js ''build'', js ''tsc'')]\<rparr>\<rparr>))
       = [(js ''build'', js ''tsc'')]
   \<and> scripts (packageJson (stateOf (cleanPackageJson (js ''/app'') (\<lambda>n. False) (js ''/out'')
        (\<lambda>k. ExecOk [])
        (Inr \<lparr>dependencies = None, devDependencies = None,
           scripts = Some [(js ''__proto__'', js ''echo''), (js ''build'', js ''tsc'')]\<rparr>)
        (moduleLoaded [(js ''/app'', [])])))) = None
   \<and> removedScripts (stateOf (cleanPackageJson (js ''/app'') (\<lambda>n. False) (js ''/out'')
        (\<lambda>k. ExecOk [])
        (Inr \<lparr>dependencies = None, devDependencies = None,
           scripts = Some [(js ''__proto__'', js ''echo''), (js ''build'', js ''tsc'')]\<rparr>)
        (moduleLoaded [(js ''/app'', [])])))
       = [(js ''build'', js ''tsc'')]"
  by code_simp

section \<open>The audit exporter\<close>

lemma map_of_spread:
  "distinct (map fst b) \<Longrightarrow> map_of (spread a b) = map_of a ++ map_of b"
  by (rule ext) (simp add: spread_def map_of_fold_update map_of_rev_distinct map_add_def)

text \<open>
  The exporter either ends with the exception of a write that was refused, before the
  summary document is written, or writes the four documents and returns.
\<close>

lemma saveRemovedItems_cases:
  obtains (refused) e st' where "saveRemovedItems exp st = Throw e st'"
      and "summaryWrites exp st' = summaryWrites exp st"
  | (written) "saveRemovedItems exp st =
     Ok () (st\<lparr>files :=
                AList.update (exp, [''allRemovedItems.json''])
                  (SummaryDoc (removedScripts st)
                     (spread (removedLocalDeps st) (removedLockedDeps st))
                     (spread (removedLocalDevDeps st) (removedLockedDevDeps st)))
                  (AList.update (exp, [''details'', ''removedScripts.json''])
                     (MapDoc (removedScripts st))
                     (AList.update (exp, [''details'', ''removedLockedPackages.json''])
                        (MapDoc (removedLockedDeps st))
                        (AList.update (exp, [''details'', ''removedLocalPackages.json''])
                           (MapDoc (removedLocalDeps st)) (files st)))),
              trace := trace st @
                [WriteFile (exp, [''details'', ''removedLocalPackages.json''])
                   (MapDoc (removedLocalDeps st)),
                 WriteFile (exp, [''details'', ''removedLockedPackages.json''])
                   (MapDoc (removedLockedDeps st)),
                 WriteFile (exp, [''details'', ''removedScripts.json''])
                   (MapDoc (removedScripts st)),
                 WriteFile (exp, [''allRemovedItems.json''])
                   (SummaryDoc (removedScripts st)
                      (spread (removedLocalDeps st) (removedLockedDeps st))
                      (spread (removedLocalDevDeps st) (removedLockedDevDeps st))),
                 LogSuccess (js ''Saved removed items to '' @ exp)]\<rparr>)"
      and "(exp, []) \<in> set (dirs st)" and "(exp, [''details'']) \<in> set (dirs st)"
proof -
  let ?p1 = "(exp, [''details'', ''removedLocalPackages.json''])"
  let ?p2 = "(exp, [''details'', ''removedLockedPackages.json''])"
  let ?p3 = "(exp, [''details'', ''removedScripts.json''])"
  let ?p4 = "(exp, [''allRemovedItems.json''])"
  let ?d1 = "MapDoc (removedLocalDeps st)"
  let ?d2 = "MapDoc (removedLockedDeps st)"
  let ?d3 = "MapDoc (removedScripts st)"
  let ?d4 = "SummaryDoc (removedScripts st)
                      (spread (removedLocalDeps st) (removedLockedDeps st))
                      (spread (removedLocalDevDeps st) (removedLockedDevDeps st))"
  define st1 where "st1 = st\<lparr>files := AList.update ?p1 ?d1 (files st),
                             trace := trace st @ [WriteFile ?p1 ?d1]\<rparr>"
  define st2 where "st2 = st1\<lparr>files := AList.update ?p2 ?d2 (files st1),
                             trace := trace st1 @ [WriteFile ?p2 ?d2]\<rparr>"
  define st3 where "st3 = st2\<lparr>files := AList.update ?p3 ?d3 (files st2),
                             trace := trace st2 @ [WriteFile ?p3 ?d3]\<rparr>"
  have b: "removedLocalDeps st1 = removedLocalDeps st" "removedLockedDeps st1 = removedLockedDeps st"
    "removedLockedDeps st2 = removedLockedDeps st" "removedScripts st2 = removedScripts st"
    "removedScripts st3 = removedScripts st" "removedLocalDeps st3 = removedLocalDeps st"
    "removedLockedDeps st3 = removedLockedDeps st" "removedLocalDevDeps st3 = removedLocalDevDeps st"
    "removedLockedDevDeps st3 = removedLockedDevDeps st"
    by (simp_all add: st1_def st2_def st3_def)
  have sw: "summaryWrites exp st1 = summaryWrites exp st"
    "summaryWrites exp st2 = summaryWrites exp st" "summaryWrites exp st3 = summaryWrites exp st"
    by (simp_all add: st1_def st2_def st3_def summaryWrites_def)
  have ds: "dirs st3 = dirs st" by (simp add: st1_def st2_def st3_def)
  show thesis
  proof (cases "writeFileSync ?p1 ?d1 st")
    case (Throw e s)
    from writeFileSync_Throw [OF Throw] have "s = st" by simp
    with Throw have "saveRemovedItems exp st = Throw e st"
      by (simp add: saveRemovedItems_def saveJson_def Let_def)
    then show thesis by (rule refused) simp
  next
    case (Ok u1 s)
    from writeFileSync_Ok [OF Ok] have s1: "s = st1" and d1: "(exp, [''details'']) \<in> set (dirs st)"
      by (simp_all add: st1_def)
    note w1 = Ok [unfolded s1]
    show thesis
    proof (cases "writeFileSync ?p2 ?d2 st1")
      case (Throw e s)
      from writeFileSync_Throw [OF Throw] have "s = st1" by simp
      with Throw w1 have "saveRemovedItems exp st = Throw e st1"
        by (simp add: saveRemovedItems_def saveJson_def Let_def b)
      then show thesis by (rule refused) (rule sw)
    next
      case (Ok u2 s)
      from writeFileSync_Ok [OF Ok] have s2: "s = st2" by (simp add: st2_def)
      note w2 = Ok [unfolded s2]
      show thesis
      proof (cases "writeFileSync ?p3 ?d3 st2")
        case (Throw e s)
        from writeFileSync_Throw [OF Throw] have "s = st2" by simp
        with Throw w1 w2 have "saveRemovedItems exp st = Throw e st2"
          by (simp add: saveRemovedItems_def saveJson_def Let_def b)
        then show thesis by (rule refused) (rule sw)
      next
        case (Ok u3 s)
        from writeFileSync_Ok [OF Ok] have s3: "s = st3" by (simp add: st3_def)
        note w3 = Ok [unfolded s3]
        show thesis
        proof (cases "writeFileSync ?p4 ?d4 st3")
          case (Throw e s)
          from writeFileSync_Throw [OF Throw] have "s = st3" by simp
          with Throw w1 w2 w3 have "saveRemovedItems exp st = Throw e st3"
            by (simp add: saveRemovedItems_def saveJson_def Let_def b)
          then show thesis by (rule refused) (rule sw)
        next
          case (Ok u4 s)
          from writeFileSync_Ok [OF Ok]
          have s4: "s = st3\<lparr>files := AList.update ?p4 ?d4 (files st3),
                             trace := trace st3 @ [WriteFile ?p4 ?d4]\<rparr>"
            and d4: "(exp, []) \<in> set (dirs st)"
            by (simp_all add: ds)
          from Ok w1 w2 w3
          have "saveRemovedItems exp st = Ok () (logSuccess (js ''Saved removed items to '' @ exp) s)"
            by (simp add: saveRemovedItems_def saveJson_def Let_def b)
          then show thesis
            using d1 d4
            by (intro written) (simp_all add: s4 st3_def st2_def st1_def logSuccess_def emit_def)
        qed
      qed
    qed
  qed
qed


lemma saveRemovedItems_Ok:
  assumes "(exp, []) \<in> set (dirs st)" and "(exp, [''details'']) \<in> set (dirs st)"
    and "\<forall>i. faults st i = None"
  shows "thrown (saveRemovedItems exp st) = None"
  using assms
  by (simp add: saveRemovedItems_def saveJson_def writeFileSync_def Let_def emit_def logSuccess_def)

lemma saveRemovedItems_missing:
  assumes "(exp, []) \<notin> set (dirs st) \<or> (exp, [''details'']) \<notin> set (dirs st)"
  shows "thrown (saveRemovedItems exp st) \<noteq> None"
proof (cases rule: saveRemovedItems_cases [of exp st])
  case (refused e st')
  then show ?thesis by simp
next
  case written
  with assms show ?thesis by simp
qed

lemma saveRemovedItems_summaryWrites:
  "summaryWrites exp (stateOf (saveRemovedItems exp st)) =
     summaryWrites exp st + (if thrown (saveRemovedItems exp st) = None then 1 else 0)"
proof (cases rule: saveRemovedItems_cases [of exp st])
  case (refused e st')
  then show ?thesis by simp
next
  case written
  show ?thesis
    unfolding written(1) by (simp add: summaryWrites_def)
qed

lemma saveRemovedItems_exported:
  assumes "thrown (saveRemovedItems exp st) = None" and "bucketsDistinct st"
  shows "exported exp (stateOf (saveRemovedItems exp st))"
proof (cases rule: saveRemovedItems_cases [of exp st])
  case (refused e st')
  with assms(1) show ?thesis by simp
next
  case written
  let ?deps = "spread (removedLocalDeps st) (removedLockedDeps st)"
  let ?devDeps = "spread (removedLocalDevDeps st) (removedLockedDevDeps st)"
  have m: "map_of ?deps = map_of (removedLocalDeps st) ++ map_of (removedLockedDeps st)"
    "map_of ?devDeps = map_of (removedLocalDevDeps st) ++ map_of (removedLockedDevDeps st)"
    using assms(2) by (simp_all add: map_of_spread bucketsDistinct_def)
  show ?thesis
    unfolding written(1) exported_def
    apply (intro conjI)
       apply (simp add: AList.update_conv')
      apply (simp add: AList.update_conv')
     apply (simp add: AList.update_conv')
    apply (rule exI [of _ ?deps], rule exI [of _ ?devDeps])
    apply (simp add: AList.update_conv' m)
    done
qed

lemma saveRemovedItems_frame [simp]:
  "dirs (stateOf (saveRemovedItems exp st)) = dirs st"
  "packageJson (stateOf (saveRemovedItems exp st)) = packageJson st"
  "removedLocalDeps (stateOf (saveRemovedItems exp st)) = removedLocalDeps st"
  "removedLocalDevDeps (stateOf (saveRemovedItems exp st)) = removedLocalDevDeps st"
  "removedLockedDeps (stateOf (saveRemovedItems exp st)) = removedLockedDeps st"
  "removedLockedDevDeps (stateOf (saveRemovedItems exp st)) = removedLockedDevDeps st"
  "removedScripts (stateOf (saveRemovedItems exp st)) = removedScripts st"
  using saveRemovedItems_io [of exp st] by auto

lemma runCommand_ExecFailed:
  "runCommand (ExecFailed err stderr) cmd cwd st =
     (Inl err,
      st\<lparr>trace := trace st @ [Exec cmd cwd (files st),
          ConsoleError (js ''Error executing command \"'' @ js cmd @ js ''\":'') stderr]\<rparr>)"
  by (simp add: runCommand_def emit_def)

lemma runCommand_Inl:
  "runCommand outcome cmd cwd st = (Inl err, st1) \<Longrightarrow> \<exists>stderr. outcome = ExecFailed err stderr"
  by (cases outcome) (auto simp: runCommand_def)

text \<open>
  What no step of the run before the exporter changes: the directories, the refusals of
  the file system, the number of summary documents written, and that the keys of each
  bucket are distinct.
\<close>

lemma runCommand_frame:
  assumes "runCommand outcome cmd cwd st = (r, st1)"
  shows "dirs st1 = dirs st \<and> faults st1 = faults st
         \<and> summaryWrites exp st1 = summaryWrites exp st
         \<and> bucketsDistinct st1 = bucketsDistinct st"
  using assms
  by (cases outcome) (auto simp: runCommand_def emit_def summaryWrites_def bucketsDistinct_def)

lemma pruneStep_frame:
  "dirs (stateOf (pruneStep a root st)) = dirs st
   \<and> faults (stateOf (pruneStep a root st)) = faults st
   \<and> summaryWrites exp (stateOf (pruneStep a root st)) = summaryWrites exp st
   \<and> (bucketsDistinct st \<longrightarrow> bucketsDistinct (stateOf (pruneStep a root st)))"
proof (cases "pruneStep a root st")
  case (Ok u st')
  from pruneStep_Ok [OF Ok] bucketsDistinct_pruneBoth [of st Local] show ?thesis
    by (simp add: Ok summaryWrites_def)
next
  case (Throw e st')
  from pruneStep_Throw [OF Throw] bucketsDistinct_pruneBoth [of st Local] show ?thesis
    by (simp add: Throw summaryWrites_def)
qed

lemma log_frame [simp]:
  "dirs (logInfo msg st) = dirs st"
  "dirs (logSuccess msg st) = dirs st"
  "dirs (logError msg x st) = dirs st"
  "faults (logInfo msg st) = faults st"
  "faults (logSuccess msg st) = faults st"
  "faults (logError msg x st) = faults st"
  "bucketsDistinct (logInfo msg st) = bucketsDistinct st"
  "bucketsDistinct (logSuccess msg st) = bucketsDistinct st"
  "bucketsDistinct (logError msg x st) = bucketsDistinct st"
  by (simp_all add: logInfo_def logSuccess_def logError_def emit_def bucketsDistinct_def)

lemma summaryWrites_log [simp]:
  "summaryWrites exp (logInfo msg st) = summaryWrites exp st"
  "summaryWrites exp (logSuccess msg st) = summaryWrites exp st"
  "summaryWrites exp (logError msg x st) = summaryWrites exp st"
  by (simp_all add: logInfo_def logSuccess_def logError_def emit_def summaryWrites_def)

lemma retryLoop_frame:
  "dirs (stateOf (retryLoop yarn root m k st)) = dirs st
   \<and> faults (stateOf (retryLoop yarn root m k st)) = faults st
   \<and> summaryWrites exp (stateOf (retryLoop yarn root m k st)) = summaryWrites exp st
   \<and> (bucketsDistinct st \<longrightarrow> bucketsDistinct (stateOf (retryLoop yarn root m k st)))
   \<and> ((root, []) \<in> set (dirs st) \<and> (\<forall>i. faults st i = None) \<and> classifiable yarn \<longrightarrow>
        thrown (retryLoop yarn root m k st) = None)"
proof -
  define ds where "ds = dirs st"
  define fl where "fl = faults st"
  define w where "w = summaryWrites exp st"
  define bd where "bd = bucketsDistinct st"
  let ?I = "\<lambda>(k::nat) s. dirs s = ds \<and> faults s = fl \<and> summaryWrites exp s = w
              \<and> (bd \<longrightarrow> bucketsDistinct s)"
  let ?R = "\<lambda>r. ?I 0 (stateOf r)
             \<and> ((root, []) \<in> set ds \<and> (\<forall>i. fl i = None) \<and> classifiable yarn \<longrightarrow> thrown r = None)"
  have step: "?I 0 st1"
    if "?I 0 s" and "runCommand (yarn k) ''yarn install'' root
          (logInfo (js ''Attempting to install dependencies...'') s) = (r, st1)"
    for s st1 r k
    using that(1) runCommand_frame [OF that(2), of exp]
    by simp
  have "?R (retryLoop yarn root m k st)"
  proof (rule retryLoop_rule [where I = ?I and R = ?R], goal_cases)
    case 1
    then show ?case by (simp add: ds_def w_def fl_def bd_def)
  next
    case (2 k st)
    then show ?case by simp
  next
    case (3 k st out st1)
    from step [OF 3(1) 3(3)] show ?case
      by simp
  next
    case (4 k st err st1 e)
    from runCommand_Inl [OF 4(3)] obtain stderr where "yarn k = ExecFailed err stderr"
      by blast
    with 4(4) have "\<not> classifiable yarn"
      unfolding classifiable_def by (metis Inl_Inr_False)
    with step [OF 4(1) 4(3)] show ?case
      by simp
  next
    case (5 k st err st1 al)
    from step [OF 5(1) 5(3)] show ?case
      by simp
  next
    case (6 k st err st1 a e st2)
    note s1 = step [OF 6(1) 6(3)]
    from pruneStep_Throw [OF 6(6)] s1
    have "\<not> ((root, []) \<in> set ds \<and> (\<forall>i. fl i = None))" by auto
    with s1 pruneStep_frame [of a root st1 exp] 6(6) show ?case by simp
  next
    case (7 k st err st1 a u st2)
    note s1 = step [OF 7(1) 7(3)]
    with pruneStep_frame [of a root st1 exp] 7(6) show ?case by simp
  qed
  then show ?thesis by (simp add: ds_def w_def fl_def bd_def)
qed

lemma attemptInstall_frame:
  "dirs (stateOf (attemptInstallWithRetries yarn root m st)) = dirs st
   \<and> faults (stateOf (attemptInstallWithRetries yarn root m st)) = faults st
   \<and> summaryWrites exp (stateOf (attemptInstallWithRetries yarn root m st)) = summaryWrites exp st
   \<and> (bucketsDistinct st \<longrightarrow> bucketsDistinct (stateOf (attemptInstallWithRetries yarn root m st)))
   \<and> ((root, []) \<in> set (dirs st) \<and> (\<forall>i. faults st i = None) \<and> classifiable yarn \<longrightarrow>
        thrown (attemptInstallWithRetries yarn root m st) = None)"
  using retryLoop_frame [of yarn root m 0 st exp]
  by (cases "retryLoop yarn root m 0 st")
     (auto simp: attemptInstallWithRetries_def)

lemma bucketsDistinct_removeScripts [simp]:
  "bucketsDistinct (removeScripts st) = bucketsDistinct st"
  by (simp add: removeScripts_def bucketsDistinct_def logSuccess_def emit_def split: option.splits)

lemma preFilter_frame:
  "dirs (preFilter lockedDeps st) = dirs st
   \<and> faults (preFilter lockedDeps st) = faults st
   \<and> summaryWrites exp (preFilter lockedDeps st) = summaryWrites exp st
   \<and> (bucketsDistinct st \<longrightarrow> bucketsDistinct (preFilter lockedDeps st))"
proof -
  have "dirs (preFilter lockedDeps st) = dirs st
   \<and> faults (preFilter lockedDeps st) = faults st
   \<and> summaryWrites exp (preFilter lockedDeps st) = summaryWrites exp st"
    by (simp add: preFilter_eq removeScripts_def logSuccess_def emit_def summaryWrites_def
        split: option.splits)
  moreover have "bucketsDistinct st \<longrightarrow> bucketsDistinct (preFilter lockedDeps st)"
    using bucketsDistinct_pruneBoth [of "removeScripts st" Locked]
    by (simp add: preFilter_eq)
  ultimately show ?thesis by blast
qed

lemma boom_no_signal: "parseErrorForPackageAlias (js ''boom'') = Inr None"
  by code_simp

text \<open>
  C9, amended: the exporter creates no directory: the directories after a run are those
  before it. It runs once, after the loop has reached a terminal state: the summary
  document is written once in a run that returns and never in a run that ends with an
  exception. After a run that returns the four documents hold the removal records as
  they are then: the three documents under \<open>details\<close> are the local dependency bucket,
  the locked dependency bucket and the scripts bucket, and the summary has the scripts
  bucket and, for each kind, the entries of the local and of the locked bucket of that
  kind. The run returns, whatever the outcomes of the install command are, provided that
  the project directory, the export directory and its \<open>details\<close> directory exist, the
  file system refuses no write and the classifier returns on every diagnostic; with the
  export directory or its \<open>details\<close> directory missing the run ends with an exception.
\<close>

theorem export_after_terminal_state:
  "(let res = cleanPackageJson root lockedDeps exp yarn (Inr pj) ((moduleLoaded ds)\<lparr>faults := fl\<rparr>);
        st' = stateOf res
    in dirs st' = ds
     \<and> summaryWrites exp st' = (if thrown res = None then 1 else 0)
     \<and> (thrown res = None \<longrightarrow> exported exp st')
     \<and> ((root, []) \<in> set ds \<and> (exp, []) \<in> set ds \<and> (exp, [''details'']) \<in> set ds
          \<and> (\<forall>i. fl i = None) \<and> classifiable yarn \<longrightarrow> thrown res = None)
     \<and> ((exp, []) \<notin> set ds \<or> (exp, [''details'']) \<notin> set ds \<longrightarrow> thrown res \<noteq> None))"
proof -
  define st1 where
    "st1 = preFilter lockedDeps ((moduleLoaded ds)\<lparr>faults := fl, packageJson := pj\<rparr>)"
  define res where
    "res = cleanPackageJson root lockedDeps exp yarn (Inr pj) ((moduleLoaded ds)\<lparr>faults := fl\<rparr>)"
  have f1: "dirs st1 = ds" "faults st1 = fl" "summaryWrites exp st1 = 0" "bucketsDistinct st1"
    using preFilter_frame [of lockedDeps "(moduleLoaded ds)\<lparr>faults := fl, packageJson := pj\<rparr>" exp]
    by (simp_all add: st1_def moduleLoaded_def summaryWrites_def bucketsDistinct_def)
  let ?w = "writeFileSync (pathJoin (root, []) ''package.json'') (PackageDoc (packageJson st1)) st1"
  have goal: "dirs (stateOf res) = ds
     \<and> summaryWrites exp (stateOf res) = (if thrown res = None then 1 else 0)
     \<and> (thrown res = None \<longrightarrow> exported exp (stateOf res))
     \<and> ((root, []) \<in> set ds \<and> (exp, []) \<in> set ds \<and> (exp, [''details'']) \<in> set ds
          \<and> (\<forall>i. fl i = None) \<and> classifiable yarn \<longrightarrow> thrown res = None)
     \<and> ((exp, []) \<notin> set ds \<or> (exp, [''details'']) \<notin> set ds \<longrightarrow> thrown res \<noteq> None)"
  proof (cases ?w)
    case (Throw e st2)
    then have r: "res = Throw e st2"
      by (simp add: res_def cleanPackageJson_def st1_def [symmetric])
    from writeFileSync_Throw [OF Throw] f1 show ?thesis
      by (auto simp: r)
  next
    case (Ok u st2)
    note w = this
    define m where "m = countKeys (dependencies (packageJson st2))
                      + countKeys (devDependencies (packageJson st2))"
    from writeFileSync_Ok [OF w] f1
    have f2: "dirs st2 = ds" "faults st2 = fl" "summaryWrites exp st2 = 0" "(root, []) \<in> set ds"
      "bucketsDistinct st2"
      by (simp_all add: summaryWrites_def)
    note fa = attemptInstall_frame [of yarn root m st2 exp]
    show ?thesis
    proof (cases "attemptInstallWithRetries yarn root m st2")
      case (Throw e st3)
      then have r: "res = Throw e st3"
        using w by (simp add: res_def cleanPackageJson_def st1_def [symmetric] Let_def
            m_def [symmetric] del: pathJoin_simps)
      from fa f2 show ?thesis by (simp add: r Throw)
    next
      case (Ok v st3)
      then have r: "res = saveRemovedItems exp st3"
        using w by (simp add: res_def cleanPackageJson_def st1_def [symmetric] Let_def
            m_def [symmetric] del: pathJoin_simps)
      from fa f2 have f3: "dirs st3 = ds" "faults st3 = fl" "summaryWrites exp st3 = 0"
        "bucketsDistinct st3"
        by (simp_all add: Ok)
      have c1: "dirs (stateOf res) = ds" by (simp add: r f3)
      have c2: "summaryWrites exp (stateOf res) = (if thrown res = None then 1 else 0)"
        by (simp add: r saveRemovedItems_summaryWrites f3)
      have c3: "thrown res = None \<longrightarrow> exported exp (stateOf res)"
        using saveRemovedItems_exported [of exp st3] f3 by (simp add: r)
      have c4: "(root, []) \<in> set ds \<and> (exp, []) \<in> set ds \<and> (exp, [''details'']) \<in> set ds
          \<and> (\<forall>i. fl i = None) \<and> classifiable yarn \<longrightarrow> thrown res = None"
        using saveRemovedItems_Ok [of exp st3] f3 by (simp add: r)
      have c5: "(exp, []) \<notin> set ds \<or> (exp, [''details'']) \<notin> set ds \<longrightarrow> thrown res \<noteq> None"
        using saveRemovedItems_missing [of exp st3] f3 unfolding r by blast
      from c1 c2 c3 c4 c5 show ?thesis by blast
    qed
  qed
  show ?thesis
    unfolding Let_def res_def [symmetric] by (rule goal)
qed

text \<open>
  C9, as stated: the exporter creates any missing output directory before it writes. In
  the run below the install succeeds at once and the directory \<open>/out/details\<close> does not
  exist: the first write of the exporter fails with ENOENT, the directories are as
  before and the only file written is the manifest.
\<close>

theorem missing_details_directory_counterexample:
  "thrown (cleanPackageJson (js ''/app'') (\<lambda>n. False) (js ''/out'') (\<lambda>k. ExecOk [])
             (Inr \<lparr>dependencies = Some [(js ''lodash'', js ''4.17.21'')],
                   devDependencies = None, scripts = None\<rparr>)
             (moduleLoaded [(js ''/app'', []), (js ''/out'', [])])) = Some ENOENT
   \<and> dirs (stateOf (cleanPackageJson (js ''/app'') (\<lambda>n. False) (js ''/out'') (\<lambda>k. ExecOk [])
             (Inr \<lparr>dependencies = Some [(js ''lodash'', js ''4.17.21'')],
                   devDependencies = None, scripts = None\<rparr>)
             (moduleLoaded [(js ''/app'', []), (js ''/out'', [])])))
       = [(js ''/app'', []), (js ''/out'', [])]
   \<and> map fst (files (stateOf (cleanPackageJson (js ''/app'') (\<lambda>n. False) (js ''/out'') (\<lambda>k. ExecOk [])
             (Inr \<lparr>dependencies = Some [(js ''lodash'', js ''4.17.21'')],
                   devDependencies = None, scripts = None\<rparr>)
             (moduleLoaded [(js ''/app'', []), (js ''/out'', [])]))))
       = [(js ''/app'', [''package.json''])]"
  by code_simp

lemma boom_classifiable: "classifiable (\<lambda>k. ExecFailed (js ''boom'') [])"
  by (simp add: classifiable_def boom_no_signal)

lemma moduleLoaded_faults: "(moduleLoaded ds)\<lparr>faults := (\<lambda>i. None)\<rparr> = moduleLoaded ds"
  by (simp add: moduleLoaded_def)

theorem export_after_terminal_state_witness:
  "(js ''/app'', []) \<in> set [(js ''/app'', []), (js ''/out'', []), (js ''/out'', [''details''])]
   \<and> (js ''/out'', []) \<in> set [(js ''/app'', []), (js ''/out'', []), (js ''/out'', [''details''])]
   \<and> (js ''/out'', [''details''])
        \<in> set [(js ''/app'', []), (js ''/out'', []), (js ''/out'', [''details''])]
   \<and> (\<forall>i::nat. (None :: string option) = None)
   \<and> classifiable (\<lambda>k. ExecFailed (js ''boom'') [])
   \<and> thrown (cleanPackageJson (js ''/app'') (\<lambda>n. False) (js ''/out'')
       (\<lambda>k. ExecFailed (js ''boom'') [])
       (Inr \<lparr>dependencies = Some [(js ''lodash'', js ''4.17.21'')],
             devDependencies = None, scripts = None\<rparr>)
       (moduleLoaded [(js ''/app'', []), (js ''/out'', []), (js ''/out'', [''details''])])) = None
   \<and> summaryWrites (js ''/out'') (stateOf (cleanPackageJson (js ''/app'') (\<lambda>n. False) (js ''/out'')
       (\<lambda>k. ExecFailed (js ''boom'') [])
       (Inr \<lparr>dependencies = Some [(js ''lodash'', js ''4.17.21'')],
             devDependencies = None, scripts = None\<rparr>)
       (moduleLoaded [(js ''/app'', []), (js ''/out'', []), (js ''/out'', [''details''])]))) = 1
   \<and> exported (js ''/out'') (stateOf (cleanPackageJson (js ''/app'') (\<lambda>n. False) (js ''/out'')
       (\<lambda>k. ExecFailed (js ''boom'') [])
       (Inr \<lparr>dependencies = Some [(js ''lodash'', js ''4.17.21'')],
             devDependencies = None, scripts = None\<rparr>)
       (moduleLoaded [(js ''/app'', []), (js ''/out'', []), (js ''/out'', [''details''])])))
   \<and> (js ''/out'', [''details'']) \<notin> set [(js ''/app'', []), (js ''/out'', [])]
   \<and> thrown (cleanPackageJson (js ''/app'') (\<lambda>n. False) (js ''/out'')
       (\<lambda>k. ExecFailed (js ''boom'') [])
       (Inr \<lparr>dependencies = Some [(js ''lodash'', js ''4.17.21'')],
             devDependencies = None, scripts = None\<rparr>)
       (moduleLoaded [(js ''/app'', []), (js ''/out'', [])])) \<noteq> None"
  using export_after_terminal_state [where yarn = "\<lambda>k. ExecFailed (js ''boom'') []"
        and root = "js ''/app''" and exp = "js ''/out''" and lockedDeps = "\<lambda>n. False"
        and pj = "\<lparr>dependencies = Some [(js ''lodash'', js ''4.17.21'')],
             devDependencies = None, scripts = None\<rparr>"
        and ds = "[(js ''/app'', []), (js ''/out'', []), (js ''/out'', [''details''])]"
        and fl = "\<lambda>i. None"]
    export_after_terminal_state [where yarn = "\<lambda>k. ExecFailed (js ''boom'') []"
        and root = "js ''/app''" and exp = "js ''/out''" and lockedDeps = "\<lambda>n. False"
        and pj = "\<lparr>dependencies = Some [(js ''lodash'', js ''4.17.21'')],
             devDependencies = None, scripts = None\<rparr>"
        and ds = "[(js ''/app'', []), (js ''/out'', [])]" and fl = "\<lambda>i. None"]
    boom_classifiable
  by (simp add: Let_def moduleLoaded_faults)

section \<open>Abort on an unclassified failure\<close>

lemma retryLoop_abort_now:
  assumes "k < m" and "yarn k = ExecFailed err stderr"
    and "parseErrorForPackageAlias err = Inr None"
  shows "retryLoop yarn root m k st = Ok k (aborted root err stderr st)"
  using assms
  by (simp add: retryLoop.simps [of yarn root m k st] runCommand_ExecFailed logInfo_def
      logError_def emit_def aborted_def)

lemma attempts_aborted [simp]: "attempts (aborted root err stderr st) = Suc (attempts st)"
  by (simp add: aborted_def attempts_def)

text \<open>The loop entered in \<open>st0\<close> goes on from each state in which it is at its head.\<close>

lemma loopHead_Suc:
  "loopHead yarn root m st0 (Suc k) = Some st2 \<longleftrightarrow>
     (\<exists>st err st1 a u. loopHead yarn root m st0 k = Some st \<and> k < m
        \<and> runCommand (yarn k) ''yarn install'' root
             (logInfo (js ''Attempting to install dependencies...'') st) = (Inl err, st1)
        \<and> parseErrorForPackageAlias err = Inr (Some a) \<and> a \<noteq> []
        \<and> pruneStep a root st1 = Ok u st2)"
  by (auto split: option.splits prod.splits sum.splits result.splits if_splits)

declare loopHead.simps (2) [simp del]

lemma loopHead_retryLoop:
  "loopHead yarn root m st0 k = Some st \<Longrightarrow>
   retryLoop yarn root m 0 st0 = retryLoop yarn root m k st"
proof (induction k arbitrary: st)
  case 0
  then show ?case by simp
next
  case (Suc k)
  from Suc.prems obtain st' err st1 a u where h: "loopHead yarn root m st0 k = Some st'"
    and s: "k < m" "runCommand (yarn k) ''yarn install'' root
             (logInfo (js ''Attempting to install dependencies...'') st') = (Inl err, st1)"
      "parseErrorForPackageAlias err = Inr (Some a)" "a \<noteq> []" "pruneStep a root st1 = Ok u st"
    unfolding loopHead_Suc by blast
  from s have "retryLoop yarn root m k st' = retryLoop yarn root m (Suc k) st"
    by (simp add: retryLoop.simps [of yarn root m k st'])
  with Suc.IH [OF h] show ?case by simp
qed

lemma loopHead_attempts:
  "loopHead yarn root m st0 k = Some st \<Longrightarrow> attempts st = attempts st0 + k"
proof (induction k arbitrary: st)
  case 0
  then show ?case by simp
next
  case (Suc k)
  from Suc.prems obtain st' err st1 a u where h: "loopHead yarn root m st0 k = Some st'"
    and s: "runCommand (yarn k) ''yarn install'' root
             (logInfo (js ''Attempting to install dependencies...'') st') = (Inl err, st1)"
      "pruneStep a root st1 = Ok u st"
    unfolding loopHead_Suc by blast
  from attempts_runCommand [of "yarn k" "''yarn install''" root
      "logInfo (js ''Attempting to install dependencies...'') st'"] s(1)
  have "attempts st1 = Suc (attempts st')" by simp
  moreover from attempts_pruneStep [of a root st1] s(2) have "attempts st = attempts st1"
    by simp
  ultimately show ?case using Suc.IH [OF h] by simp
qed

lemma retryLoop_abort_reached:
  assumes y: "yarn k = ExecFailed err stderr"
    and p: "parseErrorForPackageAlias err = Inr None"
    and reached: "attempts st0 + k < attempts (stateOf (retryLoop yarn root m 0 st0))"
  shows "\<exists>st1. loopHead yarn root m st0 k = Some st1 \<and> k < m
           \<and> retryLoop yarn root m 0 st0 = Ok k (aborted root err stderr st1)"
proof -
  define c where "c = attempts st0 + k"
  let ?I = "\<lambda>i s. i \<le> k \<and> loopHead yarn root m st0 i = Some s"
  let ?R = "\<lambda>r. c < attempts (stateOf r) \<longrightarrow>
              (\<exists>st1. loopHead yarn root m st0 k = Some st1 \<and> k < m
                 \<and> r = Ok k (aborted root err stderr st1))"
  have att: "attempts s + (k - i) = c" if "?I i s" for i s
    using that loopHead_attempts [of yarn root m st0 i s] by (simp add: c_def)
  have run: "attempts st1 = Suc (attempts s)"
    if "runCommand (yarn i) ''yarn install'' root
          (logInfo (js ''Attempting to install dependencies...'') s) = (r, st1)" for i s r st1
    using attempts_runCommand [of "yarn i" "''yarn install''" root
        "logInfo (js ''Attempting to install dependencies...'') s"] that by simp
  have "?R (retryLoop yarn root m 0 st0)"
  proof (rule retryLoop_rule [where I = ?I and R = ?R], goal_cases)
    case 1
    then show ?case by simp
  next
    case (2 i s)
    with att [of i s] show ?case by auto
  next
    case (3 i s out st1)
    from 3(3) y have "i \<noteq> k" by (auto simp: runCommand_def split: execResult.splits)
    with 3(1) att [of i s] have "attempts s < c" by auto
    with run [OF 3(3)] show ?case by simp
  next
    case (4 i s err' st1 e)
    from runCommand_Inl [OF 4(3)] obtain stderr' where "yarn i = ExecFailed err' stderr'" by blast
    with 4(4) y p have "i \<noteq> k" by auto
    with 4(1) att [of i s] have "attempts s < c" by auto
    with run [OF 4(3)] show ?case by simp
  next
    case (5 i s err' st1 al)
    show ?case
    proof (cases "i = k")
      case True
      from 5(3) y True have e: "err' = err"
        and s1: "st1 = (logInfo (js ''Attempting to install dependencies...'') s)
            \<lparr>trace := trace (logInfo (js ''Attempting to install dependencies...'') s) @
               [Exec ''yarn install'' root (files (logInfo (js ''Attempting to install dependencies...'') s)),
                ConsoleError (js ''Error executing command \"'' @ js ''yarn install'' @ js ''\":'') stderr]\<rparr>"
        by (simp_all add: runCommand_ExecFailed)
      have "logError (js ''Could not parse package alias from error:'') (Some err') st1
              = aborted root err stderr s"
        by (simp add: s1 e logInfo_def logError_def emit_def aborted_def)
      with 5(1) 5(2) True show ?thesis by auto
    next
      case False
      with 5(1) att [of i s] have "attempts s < c" by auto
      with run [OF 5(3)] show ?thesis by simp
    qed
  next
    case (6 i s err' st1 a e st2)
    from runCommand_Inl [OF 6(3)] obtain stderr' where "yarn i = ExecFailed err' stderr'" by blast
    with 6(4) y p have "i \<noteq> k" by auto
    with 6(1) att [of i s] have "attempts s < c" by auto
    moreover from attempts_pruneStep [of a root st1] 6(6) have "attempts st2 = attempts st1"
      by simp
    ultimately show ?case using run [OF 6(3)] by simp
  next
    case (7 i s err' st1 a u st2)
    from runCommand_Inl [OF 7(3)] obtain stderr' where "yarn i = ExecFailed err' stderr'" by blast
    with 7(4) y p have ik: "i \<noteq> k" by auto
    from 7(1) have "loopHead yarn root m st0 i = Some s" by simp
    with 7(2) 7(3) 7(4) 7(5) 7(6) have "loopHead yarn root m st0 (Suc i) = Some st2"
      unfolding loopHead_Suc by blast
    with 7(1) ik show ?case by simp
  qed
  with reached show ?thesis by (simp add: c_def)
qed

lemma keepRest_none: "\<forall>n \<in> names deps. \<not> c n \<Longrightarrow> keepRest c deps = deps"
  by (cases deps) (auto simp: names_def entries_def keepRest_def filter_id_conv)

lemma recordAll_none: "\<forall>n \<in> names deps. \<not> c n \<Longrightarrow> recordAll c deps r = r"
proof (cases deps)
  case None
  then show ?thesis by (simp add: recordAll_def)
next
  case (Some d)
  assume "\<forall>n \<in> names deps. \<not> c n"
  then have "filter (\<lambda>(n, v). c n) d = []"
    by (auto simp: Some names_def entries_def filter_empty_conv)
  then show ?thesis by (simp add: Some recordAll_def)
qed

lemma attempts_attemptInstall_eq:
  "attempts (stateOf (attemptInstallWithRetries yarn root m st))
     = attempts (stateOf (retryLoop yarn root m 0 st))"
  by (cases "retryLoop yarn root m 0 st") (simp_all add: attemptInstallWithRetries_def)

lemma aborted_frame [simp]:
  "dirs (aborted root err stderr st) = dirs st"
  "faults (aborted root err stderr st) = faults st"
  "packageJson (aborted root err stderr st) = packageJson st"
  "files (aborted root err stderr st) = files st"
  "removedLocalDeps (aborted root err stderr st) = removedLocalDeps st"
  "removedLocalDevDeps (aborted root err stderr st) = removedLocalDevDeps st"
  "removedLockedDeps (aborted root err stderr st) = removedLockedDeps st"
  "removedLockedDevDeps (aborted root err stderr st) = removedLockedDevDeps st"
  "removedScripts (aborted root err stderr st) = removedScripts st"
  by (simp_all add: aborted_def)

text \<open>
  C8, as stated: whenever an attempt fails without signal, the export is still produced.
  In the run below the first attempt fails with a diagnostic that the classifier does
  not recognise and the directory \<open>/out/details\<close> does not exist: the loop stops after
  this attempt, the exporter ends with ENOENT and no summary document is written.
\<close>

theorem abort_without_export_counterexample:
  "parseErrorForPackageAlias (js ''boom'') = Inr None
   \<and> attempts (stateOf (cleanPackageJson (js ''/app'') (\<lambda>n. False) (js ''/out'')
       (\<lambda>k. ExecFailed (js ''boom'') [])
       (Inr \<lparr>dependencies = Some [(js ''lodash'', js ''4.17.21'')],
             devDependencies = None, scripts = None\<rparr>)
       (moduleLoaded [(js ''/app'', []), (js ''/out'', [])]))) = 1
   \<and> thrown (cleanPackageJson (js ''/app'') (\<lambda>n. False) (js ''/out'')
       (\<lambda>k. ExecFailed (js ''boom'') [])
       (Inr \<lparr>dependencies = Some [(js ''lodash'', js ''4.17.21'')],
             devDependencies = None, scripts = None\<rparr>)
       (moduleLoaded [(js ''/app'', []), (js ''/out'', [])])) = Some ENOENT
   \<and> map fst (files (stateOf (cleanPackageJson (js ''/app'') (\<lambda>n. False) (js ''/out'')
       (\<lambda>k. ExecFailed (js ''boom'') [])
       (Inr \<lparr>dependencies = Some [(js ''lodash'', js ''4.17.21'')],
             devDependencies = None, scripts = None\<rparr>)
       (moduleLoaded [(js ''/app'', []), (js ''/out'', [])]))))
       = [(js ''/app'', [''package.json''])]"
  by code_simp

text \<open>
  C8, amended. Let attempt \<open>k\<close> of a run fail with a diagnostic for which the classifier
  returns null, and let the run reach that attempt. Then the loop, entered in the state
  \<open>st0\<close> that the write of the filtered manifest leaves, is at its head with
  \<open>retryCount = k\<close> in the state \<open>st1\<close> and stops there: from \<open>st1\<close> it returns \<open>st1\<close>
  with only the four events of \<open>aborted\<close> added, among them the error log with the raw
  diagnostic, so that this attempt prunes nothing and leaves the manifest, in memory and
  on disk, and every bucket as they are in \<open>st1\<close>. The run makes \<open>k + 1\<close> attempts and
  goes on with the exporter, which changes neither the manifest nor a bucket and which,
  the export directory and its \<open>details\<close> directory existing and no write being refused,
  returns with the four documents holding the removal records. When the attempt is the
  first one of a run that removed no script and no locked dependency, the manifest is the
  original one and all buckets are empty.
\<close>

theorem abort_on_no_signal:
  assumes y: "yarn k = ExecFailed err stderr"
    and p: "parseErrorForPackageAlias err = Inr None"
    and reached:
      "k < attempts (stateOf (cleanPackageJson root lockedDeps exp yarn (Inr pj)
                      ((moduleLoaded ds)\<lparr>faults := fl\<rparr>)))"
  shows "(let s = preFilter lockedDeps ((moduleLoaded ds)\<lparr>faults := fl, packageJson := pj\<rparr>);
              st0 = stateOf (writeFileSync (root, [''package.json''])
                               (PackageDoc (packageJson s)) s);
              res = cleanPackageJson root lockedDeps exp yarn (Inr pj)
                      ((moduleLoaded ds)\<lparr>faults := fl\<rparr>)
          in \<exists>st1. loopHead yarn root (budget st0) st0 k = Some st1 \<and> k < budget st0
               \<and> retryLoop yarn root (budget st0) 0 st0 = Ok k (aborted root err stderr st1)
               \<and> retryLoop yarn root (budget st0) k st1 = Ok k (aborted root err stderr st1)
               \<and> packageJson (aborted root err stderr st1) = packageJson st1
               \<and> files (aborted root err stderr st1) = files st1
               \<and> res = saveRemovedItems exp (aborted root err stderr st1)
               \<and> attempts (stateOf res) = Suc k
               \<and> packageJson (stateOf res) = packageJson st1
               \<and> removedLocalDeps (stateOf res) = removedLocalDeps st1
               \<and> removedLocalDevDeps (stateOf res) = removedLocalDevDeps st1
               \<and> removedLockedDeps (stateOf res) = removedLockedDeps st1
               \<and> removedLockedDevDeps (stateOf res) = removedLockedDevDeps st1
               \<and> removedScripts (stateOf res) = removedScripts st1
               \<and> ((exp, []) \<in> set ds \<and> (exp, [''details'']) \<in> set ds \<and> (\<forall>i. fl i = None) \<longrightarrow>
                     thrown res = None \<and> exported exp (stateOf res))
               \<and> (k = 0 \<and> scripts pj = None
                    \<and> (\<forall>n \<in> names (dependencies pj) \<union> names (devDependencies pj). \<not> lockedDeps n) \<longrightarrow>
                     packageJson st1 = pj \<and> removedLocalDeps st1 = [] \<and> removedLocalDevDeps st1 = []
                     \<and> removedLockedDeps st1 = [] \<and> removedLockedDevDeps st1 = []
                     \<and> removedScripts st1 = []))"
proof -
  define s0 where "s0 = (moduleLoaded ds)\<lparr>faults := fl, packageJson := pj\<rparr>"
  define s where "s = preFilter lockedDeps s0"
  define res where "res = cleanPackageJson root lockedDeps exp yarn (Inr pj)
                      ((moduleLoaded ds)\<lparr>faults := fl\<rparr>)"
  let ?w = "writeFileSync (root, [''package.json'']) (PackageDoc (packageJson s)) s"
  define st0 where "st0 = stateOf ?w"
  define m where "m = budget st0"
  have f1: "dirs s = ds" "faults s = fl" "attempts s = 0" "bucketsDistinct s"
    using preFilter_frame [of lockedDeps s0 exp] attempts_preFilter [of lockedDeps s0]
    by (simp_all add: s_def)
       (simp_all add: s0_def moduleLoaded_def attempts_def bucketsDistinct_def)
  from reached have reached': "k < attempts (stateOf res)" by (simp add: res_def)
  have goal: "\<exists>st1. loopHead yarn root m st0 k = Some st1 \<and> k < m
               \<and> retryLoop yarn root m 0 st0 = Ok k (aborted root err stderr st1)
               \<and> retryLoop yarn root m k st1 = Ok k (aborted root err stderr st1)
               \<and> packageJson (aborted root err stderr st1) = packageJson st1
               \<and> files (aborted root err stderr st1) = files st1
               \<and> res = saveRemovedItems exp (aborted root err stderr st1)
               \<and> attempts (stateOf res) = Suc k
               \<and> packageJson (stateOf res) = packageJson st1
               \<and> removedLocalDeps (stateOf res) = removedLocalDeps st1
               \<and> removedLocalDevDeps (stateOf res) = removedLocalDevDeps st1
               \<and> removedLockedDeps (stateOf res) = removedLockedDeps st1
               \<and> removedLockedDevDeps (stateOf res) = removedLockedDevDeps st1
               \<and> removedScripts (stateOf res) = removedScripts st1
               \<and> ((exp, []) \<in> set ds \<and> (exp, [''details'']) \<in> set ds \<and> (\<forall>i. fl i = None) \<longrightarrow>
                     thrown res = None \<and> exported exp (stateOf res))
               \<and> (k = 0 \<and> scripts pj = None
                    \<and> (\<forall>n \<in> names (dependencies pj) \<union> names (devDependencies pj). \<not> lockedDeps n) \<longrightarrow>
                     packageJson st1 = pj \<and> removedLocalDeps st1 = [] \<and> removedLocalDevDeps st1 = []
                     \<and> removedLockedDeps st1 = [] \<and> removedLockedDevDeps st1 = []
                     \<and> removedScripts st1 = [])"
  proof (cases ?w)
    case (Throw e st2)
    then have "res = Throw e st2"
      by (simp add: res_def cleanPackageJson_def s_def [symmetric] s0_def [symmetric])
    with writeFileSync_Throw [OF Throw] f1 reached' show ?thesis by simp
  next
    case (Ok u st2)
    note w = this
    then have st2: "st2 = st0" by (simp add: st0_def)
    from writeFileSync_Ok [OF w] f1
    have f2: "dirs st0 = ds" "faults st0 = fl" "attempts st0 = 0" "bucketsDistinct st0"
      by (simp_all add: attempts_def st2)
    have res_cases: "res = (case attemptInstallWithRetries yarn root m st0 of
                        Throw e st3 \<Rightarrow> Throw e st3
                      | Ok v st3 \<Rightarrow> saveRemovedItems exp st3)"
      using w by (simp add: res_def cleanPackageJson_def s_def [symmetric] s0_def [symmetric]
          Let_def m_def budget_def st2)
    have "attempts (stateOf res) = attempts (stateOf (attemptInstallWithRetries yarn root m st0))"
      by (cases "attemptInstallWithRetries yarn root m st0") (simp_all add: res_cases)
    with reached' have r0: "attempts st0 + k < attempts (stateOf (retryLoop yarn root m 0 st0))"
      by (simp add: attempts_attemptInstall_eq f2)
    from retryLoop_abort_reached [OF y p r0]
    obtain st1 where rs: "loopHead yarn root m st0 k = Some st1" and km: "k < m"
      and loop: "retryLoop yarn root m 0 st0 = Ok k (aborted root err stderr st1)"
      by blast
    from loopHead_retryLoop [OF rs] loop
    have loopk: "retryLoop yarn root m k st1 = Ok k (aborted root err stderr st1)" by simp
    from loopHead_attempts [OF rs] f2 have a1: "attempts st1 = k" by simp
    from retryLoop_frame [of yarn root m 0 st0 exp] f2
    have f3: "dirs st1 = ds" "faults st1 = fl" "bucketsDistinct (aborted root err stderr st1)"
      by (simp_all add: loop)
    have ai: "attemptInstallWithRetries yarn root m st0 = Ok () (aborted root err stderr st1)"
      using km by (simp add: attemptInstallWithRetries_def loop)
    have r: "res = saveRemovedItems exp (aborted root err stderr st1)"
      by (simp add: res_cases ai)
    have att: "attempts (stateOf res) = Suc k"
      by (simp add: r a1)
    have same: "packageJson (stateOf res) = packageJson st1"
      "removedLocalDeps (stateOf res) = removedLocalDeps st1"
      "removedLocalDevDeps (stateOf res) = removedLocalDevDeps st1"
      "removedLockedDeps (stateOf res) = removedLockedDeps st1"
      "removedLockedDevDeps (stateOf res) = removedLockedDevDeps st1"
      "removedScripts (stateOf res) = removedScripts st1"
      by (simp_all add: r)
    have ex: "thrown res = None \<and> exported exp (stateOf res)"
      if "(exp, []) \<in> set ds \<and> (exp, [''details'']) \<in> set ds \<and> (\<forall>i. fl i = None)"
    proof -
      have "thrown res = None"
        unfolding r using that f3 by (intro saveRemovedItems_Ok) simp_all
      then show ?thesis
        using saveRemovedItems_exported [of exp "aborted root err stderr st1"] f3(3)
        by (simp add: r)
    qed
    have un: "packageJson st1 = pj \<and> removedLocalDeps st1 = [] \<and> removedLocalDevDeps st1 = []
                \<and> removedLockedDeps st1 = [] \<and> removedLockedDevDeps st1 = []
                \<and> removedScripts st1 = []"
      if u: "k = 0 \<and> scripts pj = None
               \<and> (\<forall>n \<in> names (dependencies pj) \<union> names (devDependencies pj). \<not> lockedDeps n)"
    proof -
      from u rs have e: "st1 = st0" by simp
      from u have k1: "keepRest lockedDeps (dependencies pj) = dependencies pj"
        and k2: "keepRest lockedDeps (devDependencies pj) = devDependencies pj"
        and r1: "\<And>r. recordAll lockedDeps (dependencies pj) r = r"
        and r2: "\<And>r. recordAll lockedDeps (devDependencies pj) r = r"
        by (simp_all add: keepRest_none recordAll_none)
      from u have "removeScripts s0 = s0"
        by (simp add: removeScripts_absent s0_def)
      then have "s = s0"
        by (simp add: s_def preFilter_eq pruneBoth_def s0_def k1 k2 r1 r2 setRecord_def
            getRecord_def moduleLoaded_def)
      with writeFileSync_Ok [OF w] show ?thesis
        by (simp add: e st2 [symmetric] s0_def moduleLoaded_def)
    qed
    have ab: "packageJson (aborted root err stderr st1) = packageJson st1"
      "files (aborted root err stderr st1) = files st1"
      by simp_all
    from rs km loop loopk ab r att same ex un show ?thesis by blast
  qed
  show ?thesis
    unfolding Let_def s0_def [symmetric] s_def [symmetric] st0_def [symmetric]
      res_def [symmetric] m_def [symmetric]
    by (rule goal)
qed

lemma two_attempts_run:
  "attempts (stateOf (cleanPackageJson (js ''/app'') (\<lambda>n. False) (js ''/out'')
       (\<lambda>k. if k = 0 then ExecFailed (js ''error Couldn't find package \"@acme/x\"'') []
            else ExecFailed (js ''boom'') [])
       (Inr \<lparr>dependencies = Some [(js ''@acme/x'', js ''1.0.0''), (js ''lodash'', js ''4.17.21'')],
             devDependencies = None, scripts = None\<rparr>)
       (moduleLoaded [(js ''/app'', []), (js ''/out'', []), (js ''/out'', [''details''])]))) = 2"
  "packageJson (stateOf (cleanPackageJson (js ''/app'') (\<lambda>n. False) (js ''/out'')
       (\<lambda>k. if k = 0 then ExecFailed (js ''error Couldn't find package \"@acme/x\"'') []
            else ExecFailed (js ''boom'') [])
       (Inr \<lparr>dependencies = Some [(js ''@acme/x'', js ''1.0.0''), (js ''lodash'', js ''4.17.21'')],
             devDependencies = None, scripts = None\<rparr>)
       (moduleLoaded [(js ''/app'', []), (js ''/out'', []), (js ''/out'', [''details''])])))
     = \<lparr>dependencies = Some [(js ''lodash'', js ''4.17.21'')], devDependencies = None,
        scripts = None\<rparr>"
  "removedLocalDeps (stateOf (cleanPackageJson (js ''/app'') (\<lambda>n. False) (js ''/out'')
       (\<lambda>k. if k = 0 then ExecFailed (js ''error Couldn't find package \"@acme/x\"'') []
            else ExecFailed (js ''boom'') [])
       (Inr \<lparr>dependencies = Some [(js ''@acme/x'', js ''1.0.0''), (js ''lodash'', js ''4.17.21'')],
             devDependencies = None, scripts = None\<rparr>)
       (moduleLoaded [(js ''/app'', []), (js ''/out'', []), (js ''/out'', [''details''])]))) = [(js ''@acme/x'', js ''1.0.0'')]"
  "map_of (files (stateOf (cleanPackageJson (js ''/app'') (\<lambda>n. False) (js ''/out'')
       (\<lambda>k. if k = 0 then ExecFailed (js ''error Couldn't find package \"@acme/x\"'') []
            else ExecFailed (js ''boom'') [])
       (Inr \<lparr>dependencies = Some [(js ''@acme/x'', js ''1.0.0''), (js ''lodash'', js ''4.17.21'')],
             devDependencies = None, scripts = None\<rparr>)
       (moduleLoaded [(js ''/app'', []), (js ''/out'', []), (js ''/out'', [''details''])])))) (js ''/out'', [''allRemovedItems.json''])
     = Some (SummaryDoc [] [(js ''@acme/x'', js ''1.0.0'')] [])"
  by code_simp+

theorem abort_on_no_signal_witness:
  "(\<lambda>k. if k = 0 then ExecFailed (js ''error Couldn't find package \"@acme/x\"'') []
            else ExecFailed (js ''boom'') []) (1::nat) = ExecFailed (js ''boom'') []
   \<and> parseErrorForPackageAlias (js ''boom'') = Inr None
   \<and> 1 < attempts (stateOf (cleanPackageJson (js ''/app'') (\<lambda>n. False) (js ''/out'')
       (\<lambda>k. if k = 0 then ExecFailed (js ''error Couldn't find package \"@acme/x\"'') []
            else ExecFailed (js ''boom'') [])
       (Inr \<lparr>dependencies = Some [(js ''@acme/x'', js ''1.0.0''), (js ''lodash'', js ''4.17.21'')],
             devDependencies = None, scripts = None\<rparr>)
       (moduleLoaded [(js ''/app'', []), (js ''/out'', []), (js ''/out'', [''details''])])))
   \<and> (js ''/out'', []) \<in> set [(js ''/app'', []), (js ''/out'', []), (js ''/out'', [''details''])]
   \<and> (js ''/out'', [''details'']) \<in> set [(js ''/app'', []), (js ''/out'', []), (js ''/out'', [''details''])]
   \<and> thrown (cleanPackageJson (js ''/app'') (\<lambda>n. False) (js ''/out'')
       (\<lambda>k. if k = 0 then ExecFailed (js ''error Couldn't find package \"@acme/x\"'') []
            else ExecFailed (js ''boom'') [])
       (Inr \<lparr>dependencies = Some [(js ''@acme/x'', js ''1.0.0''), (js ''lodash'', js ''4.17.21'')],
             devDependencies = None, scripts = None\<rparr>)
       (moduleLoaded [(js ''/app'', []), (js ''/out'', []), (js ''/out'', [''details''])])) = None
   \<and> exported (js ''/out'') (stateOf (cleanPackageJson (js ''/app'') (\<lambda>n. False) (js ''/out'')
       (\<lambda>k. if k = 0 then ExecFailed (js ''error Couldn't find package \"@acme/x\"'') []
            else ExecFailed (js ''boom'') [])
       (Inr \<lparr>dependencies = Some [(js ''@acme/x'', js ''1.0.0''), (js ''lodash'', js ''4.17.21'')],
             devDependencies = None, scripts = None\<rparr>)
       (moduleLoaded [(js ''/app'', []), (js ''/out'', []), (js ''/out'', [''details''])])))
   \<and> attempts (stateOf (cleanPackageJson (js ''/app'') (\<lambda>n. False) (js ''/out'')
       (\<lambda>k. if k = 0 then ExecFailed (js ''error Couldn't find package \"@acme/x\"'') []
            else ExecFailed (js ''boom'') [])
       (Inr \<lparr>dependencies = Some [(js ''@acme/x'', js ''1.0.0''), (js ''lodash'', js ''4.17.21'')],
             devDependencies = None, scripts = None\<rparr>)
       (moduleLoaded [(js ''/app'', []), (js ''/out'', []), (js ''/out'', [''details''])]))) = 2
   \<and> packageJson (stateOf (cleanPackageJson (js ''/app'') (\<lambda>n. False) (js ''/out'')
       (\<lambda>k. if k = 0 then ExecFailed (js ''error Couldn't find package \"@acme/x\"'') []
            else ExecFailed (js ''boom'') [])
       (Inr \<lparr>dependencies = Some [(js ''@acme/x'', js ''1.0.0''), (js ''lodash'', js ''4.17.21'')],
             devDependencies = None, scripts = None\<rparr>)
       (moduleLoaded [(js ''/app'', []), (js ''/out'', []), (js ''/out'', [''details''])])))
     = \<lparr>dependencies = Some [(js ''lodash'', js ''4.17.21'')], devDependencies = None,
        scripts = None\<rparr>
   \<and> removedLocalDeps (stateOf (cleanPackageJson (js ''/app'') (\<lambda>n. False) (js ''/out'')
       (\<lambda>k. if k = 0 then ExecFailed (js ''error Couldn't find package \"@acme/x\"'') []
            else ExecFailed (js ''boom'') [])
       (Inr \<lparr>dependencies = Some [(js ''@acme/x'', js ''1.0.0''), (js ''lodash'', js ''4.17.21'')],
             devDependencies = None, scripts = None\<rparr>)
       (moduleLoaded [(js ''/app'', []), (js ''/out'', []), (js ''/out'', [''details''])]))) = [(js ''@acme/x'', js ''1.0.0'')]
   \<and> map_of (files (stateOf (cleanPackageJson (js ''/app'') (\<lambda>n. False) (js ''/out'')
       (\<lambda>k. if k = 0 then ExecFailed (js ''error Couldn't find package \"@acme/x\"'') []
            else ExecFailed (js ''boom'') [])
       (Inr \<lparr>dependencies = Some [(js ''@acme/x'', js ''1.0.0''), (js ''lodash'', js ''4.17.21'')],
             devDependencies = None, scripts = None\<rparr>)
       (moduleLoaded [(js ''/app'', []), (js ''/out'', []), (js ''/out'', [''details''])])))) (js ''/out'', [''allRemovedItems.json''])
     = Some (SummaryDoc [] [(js ''@acme/x'', js ''1.0.0'')] [])"
proof -
  let ?yarn = "(\<lambda>k. if k = 0 then ExecFailed (js ''error Couldn't find package \"@acme/x\"'') []
            else ExecFailed (js ''boom'') [])"
  let ?res = "(cleanPackageJson (js ''/app'') (\<lambda>n. False) (js ''/out'')
       (\<lambda>k. if k = 0 then ExecFailed (js ''error Couldn't find package \"@acme/x\"'') []
            else ExecFailed (js ''boom'') [])
       (Inr \<lparr>dependencies = Some [(js ''@acme/x'', js ''1.0.0''), (js ''lodash'', js ''4.17.21'')],
             devDependencies = None, scripts = None\<rparr>)
       (moduleLoaded [(js ''/app'', []), (js ''/out'', []), (js ''/out'', [''details''])]))"
  have y: "?yarn (1::nat) = ExecFailed (js ''boom'') []"
    by simp
  have r: "1 < attempts (stateOf (cleanPackageJson (js ''/app'') (\<lambda>n. False) (js ''/out'') ?yarn
       (Inr \<lparr>dependencies = Some [(js ''@acme/x'', js ''1.0.0''), (js ''lodash'', js ''4.17.21'')],
             devDependencies = None, scripts = None\<rparr>)
       ((moduleLoaded [(js ''/app'', []), (js ''/out'', []), (js ''/out'', [''details''])])\<lparr>faults := (\<lambda>i. None)\<rparr>)))"
    by (simp add: two_attempts_run moduleLoaded_faults)
  have "thrown ?res = None \<and> exported (js ''/out'') (stateOf ?res)"
    using abort_on_no_signal [where yarn = ?yarn and k = 1
        and err = "js ''boom''" and stderr = "[]" and root = "js ''/app''" and exp = "js ''/out''"
        and lockedDeps = "\<lambda>n. False"
        and pj = "\<lparr>dependencies = Some [(js ''@acme/x'', js ''1.0.0''), (js ''lodash'', js ''4.17.21'')],
             devDependencies = None, scripts = None\<rparr>"
        and ds = "[(js ''/app'', []), (js ''/out'', []), (js ''/out'', [''details''])]"
        and fl = "\<lambda>i. None",
        OF y boom_no_signal r]
    by (auto simp: Let_def moduleLoaded_faults)
  then have te: "thrown ?res = None" "exported (js ''/out'') (stateOf ?res)"
    by simp_all
  have c3: "1 < attempts (stateOf ?res)"
    by (simp add: two_attempts_run)
  show ?thesis
    apply (intro conjI)
    apply (rule y)
    apply (rule boom_no_signal)
    apply (rule c3)
    apply simp
    apply simp
    apply (rule te)
    apply (rule te)
    apply (rule two_attempts_run)
    apply (rule two_attempts_run)
    apply (rule two_attempts_run)
    apply (rule two_attempts_run)
    done
qed

end
